theory Spec2Isabelle
  imports Complex_Main "HOL-Library.Log_Nat" "HOL-Library.Signed_Division"
begin

section \<open>Single-precision arithmetic as used by the geometry code\<close>

text \<open>
  \<^verbatim>\<open>ImageSource::CalcScaleToFitDisplay\<close> computes in C++ \<^verbatim>\<open>float\<close>: IEEE 754 binary32
  with round-to-nearest, ties-to-even, every operation rounded to that format (as SSE and
  ARM arithmetic do). A finite float is modelled by the rational number it denotes; every
  operation computes the exact rational result and rounds it to the nearest binary32
  value. Signed zeros are not distinguished: no operation of the function divides by a
  computed zero, so the sign of a zero is never observed.
\<close>

datatype float32 = Finite rat | PInf | MInf | NaN

definition pow2 :: "int \<Rightarrow> rat" where
  "pow2 e = (if 0 \<le> e then 2 ^ nat e else 1 / 2 ^ nat (- e))"

text \<open>Binary exponent of a positive rational: the \<open>e\<close> with \<open>2^e \<le> x < 2^(e+1)\<close>.\<close>

definition ilog2 :: "rat \<Rightarrow> int" where
  "ilog2 x = (case quotient_of x of (p, q) \<Rightarrow>
     let d = bitlen p - bitlen q in if pow2 d \<le> x then d else d - 1)"

definition round_half_even :: "rat \<Rightarrow> int" where
  "round_half_even y =
     (let n = \<lfloor>y\<rfloor>; r = y - of_int n
      in if r < 1 / 2 then n else if 1 / 2 < r then n + 1
         else if even n then n else n + 1)"

text \<open>
  Spacing of the binary32 values around a positive magnitude: 24 significant bits, and
  the fixed spacing \<open>2^-149\<close> of the subnormal range below \<open>2^-126\<close>.
\<close>

definition quantum :: "rat \<Rightarrow> rat" where
  "quantum a = pow2 (max (ilog2 a) (- 126) - 23)"

definition round_binary32 :: "rat \<Rightarrow> rat" where
  "round_binary32 x =
     (if x = 0 then 0
      else sgn x * (of_int (round_half_even (\<bar>x\<bar> / quantum \<bar>x\<bar>)) * quantum \<bar>x\<bar>))"

text \<open>A rounded magnitude of \<open>2^128\<close> or more overflows to an infinity.\<close>

definition to_binary32 :: "rat \<Rightarrow> float32" where
  "to_binary32 x =
     (let r = round_binary32 x
      in if 2 ^ 128 \<le> r then PInf else if r \<le> - (2 ^ 128) then MInf else Finite r)"

text \<open>
  \<^verbatim>\<open>(float)n\<close> for an \<^verbatim>\<open>int\<close> \<open>n\<close>: always finite, rounded to 24 significant bits.
\<close>

definition i2f :: "int \<Rightarrow> rat" where
  "i2f n = round_binary32 (of_int n)"

text \<open>
  \<^verbatim>\<open>a / b\<close> on two converted integers. A zero divisor gives an infinity, or NaN for \<open>0 / 0\<close>.
\<close>

definition fdiv :: "rat \<Rightarrow> rat \<Rightarrow> float32" where
  "fdiv a b =
     (if b = 0 then (if a = 0 then NaN else if 0 < a then PInf else MInf)
      else to_binary32 (a / b))"

text \<open>\<^verbatim>\<open>f * n\<close> for a float \<open>f\<close> and a converted integer.\<close>

fun fmul :: "float32 \<Rightarrow> rat \<Rightarrow> float32" where
  "fmul (Finite a) b = to_binary32 (a * b)"
| "fmul PInf b = (if b = 0 then NaN else if 0 < b then PInf else MInf)"
| "fmul MInf b = (if b = 0 then NaN else if 0 < b then MInf else PInf)"
| "fmul NaN b = NaN"

text \<open>
  \<^verbatim>\<open>x < y\<close>; every comparison with a NaN is false. \<^verbatim>\<open>x > y\<close> is \<open>flt y x\<close>. The
  comparisons with the \<^verbatim>\<open>double\<close> literal \<^verbatim>\<open>1.0\<close> convert the float exactly.
\<close>

fun flt :: "float32 \<Rightarrow> float32 \<Rightarrow> bool" where
  "flt NaN y = False"
| "flt x NaN = False"
| "flt (Finite a) (Finite b) = (a < b)"
| "flt (Finite a) PInf = True"
| "flt (Finite a) MInf = False"
| "flt PInf y = False"
| "flt MInf MInf = False"
| "flt MInf y = True"

definition fgt :: "float32 \<Rightarrow> float32 \<Rightarrow> bool" where
  "fgt x y = flt y x"

text \<open>
  \<^verbatim>\<open>x <= y\<close>, again false on a NaN. The function itself only tests \<^verbatim>\<open>>\<close> and \<^verbatim>\<open><\<close>; this
  comparison serves to state properties of the fractions.
\<close>

fun fle :: "float32 \<Rightarrow> float32 \<Rightarrow> bool" where
  "fle NaN y = False"
| "fle x NaN = False"
| "fle (Finite a) (Finite b) = (a \<le> b)"
| "fle (Finite a) PInf = True"
| "fle (Finite a) MInf = False"
| "fle PInf PInf = True"
| "fle PInf y = False"
| "fle MInf y = True"

text \<open>\<^verbatim>\<open>roundf\<close>: to the nearest integer, halfway cases away from zero.\<close>

definition round_half_away :: "rat \<Rightarrow> int" where
  "round_half_away r = (if 0 \<le> r then \<lfloor>r + 1 / 2\<rfloor> else - \<lfloor>- r + 1 / 2\<rfloor>)"

fun roundf :: "float32 \<Rightarrow> float32" where
  "roundf (Finite r) = Finite (of_int (round_half_away r))"
| "roundf x = x"

text \<open>
  \<^verbatim>\<open>(int) x\<close>: truncation towards zero. For a value outside the range of \<^verbatim>\<open>int\<close>, an
  infinity or a NaN the language leaves the result open and the hardware decides it
  (\<open>INT_MIN\<close> on x86, saturation on ARM); the model takes that result from the
  parameter \<open>oor\<close>, so that what is proved holds for each of them.
\<close>

definition trunc_int :: "rat \<Rightarrow> int" where
  "trunc_int r = (if 0 \<le> r then \<lfloor>r\<rfloor> else \<lceil>r\<rceil>)"

definition INT_MIN :: int where "INT_MIN = - 2147483648"
definition INT_MAX :: int where "INT_MAX = 2147483647"

fun f2i :: "(float32 \<Rightarrow> int) \<Rightarrow> float32 \<Rightarrow> int" where
  "f2i oor (Finite r) =
     (if INT_MIN \<le> trunc_int r \<and> trunc_int r \<le> INT_MAX then trunc_int r else oor (Finite r))"
| "f2i oor x = oor x"

definition x86_oor :: "float32 \<Rightarrow> int" where
  "x86_oor x = INT_MIN"

section \<open>Target geometry: \<^verbatim>\<open>ImageSource::CalcScaleToFitDisplay\<close>\<close>

text \<open>
  The fields of \<^verbatim>\<open>DisplayOptions\<close> that the geometry code and the tail of \<^verbatim>\<open>main\<close> read or
  write. C \<^verbatim>\<open>int\<close> values are modelled by the integers they denote.
\<close>

record DisplayOptions =
  width :: int
  height :: int
  upscale :: bool
  fill_width :: bool
  fill_height :: bool
  show_filename :: bool
  scroll_animation :: bool
  scroll_dx :: int
  scroll_dy :: int

text \<open>The returned flag together with the two output parameters.\<close>

record ScaleResult =
  needs_scaling :: bool
  target_width :: int
  target_height :: int

definition width_fraction :: "int \<Rightarrow> DisplayOptions \<Rightarrow> float32" where
  "width_fraction img_width options = fdiv (i2f (width options)) (i2f img_width)"

definition height_fraction :: "int \<Rightarrow> DisplayOptions \<Rightarrow> float32" where
  "height_fraction img_height options = fdiv (i2f (height options)) (i2f img_height)"

text \<open>The guard of the early return (lines 36 to 38).\<close>

definition no_upscale_return :: "int \<Rightarrow> int \<Rightarrow> DisplayOptions \<Rightarrow> bool" where
  "no_upscale_return img_width img_height options \<longleftrightarrow>
     \<not> upscale options \<and>
     (fill_height options \<or> fgt (width_fraction img_width options) (Finite 1)) \<and>
     (fill_width options \<or> fgt (height_fraction img_height options) (Finite 1))"

text \<open>
  The values of \<^verbatim>\<open>*target_width\<close> and \<^verbatim>\<open>*target_height\<close> after the mode switch
  (lines 44 to 74), before the final clamp.
\<close>

definition fit_targets :: "(float32 \<Rightarrow> int) \<Rightarrow> int \<Rightarrow> int \<Rightarrow> DisplayOptions \<Rightarrow> int \<times> int" where
  "fit_targets oor img_width img_height options =
     (let wf = width_fraction img_width options;
          hf = height_fraction img_height options
      in if fill_width options \<and> fill_height options then
           let larger_fraction = (if fgt wf hf then wf else hf)
           in (f2i oor (roundf (fmul larger_fraction (i2f img_width))),
               f2i oor (roundf (fmul larger_fraction (i2f img_height))))
         else if fill_height options then
           (f2i oor (roundf (fmul hf (i2f img_width))), height options)
         else if fill_width options then
           (width options, f2i oor (roundf (fmul wf (i2f img_height))))
         else
           let smaller_fraction = (if flt wf hf then wf else hf)
           in (f2i oor (roundf (fmul smaller_fraction (i2f img_width))),
               f2i oor (roundf (fmul smaller_fraction (i2f img_height)))))"

text \<open>``Don't scale down to nothing'' (lines 77 and 78).\<close>

definition at_least_one :: "int \<Rightarrow> int" where
  "at_least_one t = (if t \<le> 0 then 1 else t)"

definition CalcScaleToFitDisplay ::
  "(float32 \<Rightarrow> int) \<Rightarrow> int \<Rightarrow> int \<Rightarrow> DisplayOptions \<Rightarrow> ScaleResult" where
  "CalcScaleToFitDisplay oor img_width img_height options =
     (if no_upscale_return img_width img_height options then
        \<lparr>needs_scaling = False, target_width = img_width, target_height = img_height\<rparr>
      else
        case fit_targets oor img_width img_height options of (tw, th) \<Rightarrow>
          \<lparr>needs_scaling = at_least_one tw \<noteq> img_width \<or> at_least_one th \<noteq> img_height,
           target_width = at_least_one tw,
           target_height = at_least_one th\<rparr>)"




text \<open>Display options for examples: a box, the two fill flags and the upscale flag.\<close>

definition geometry_options :: "int \<Rightarrow> int \<Rightarrow> bool \<Rightarrow> bool \<Rightarrow> bool \<Rightarrow> DisplayOptions" where
  "geometry_options w h fw fh up =
     \<lparr>width = w, height = h, upscale = up, fill_width = fw, fill_height = fh,
      show_filename = False, scroll_animation = False, scroll_dx = 1, scroll_dy = 0\<rparr>"

section \<open>The run: events, external collaborators and the interrupt flag\<close>

text \<open>
  Everything the program does to the outside, and every call whose arguments a property
  speaks about, is appended to a trace. The collaborators that are not part of the program
  (the decoders, the clock, the signals of the operating system) answer from the history of
  the run, so that nothing is assumed about them.
\<close>

datatype loader = ImageLoader | VideoLoader

datatype Duration = Millis int | InfiniteFuture

datatype diag =
    ReadSizeFailed
  | UnusualSize int int
  | ExpectedFilename
  | ScrollZero
  | CouldntLoad string
  | StdinVideoHint
  | DecodeFailed string
  | UsageText

datatype event =
    Stderr diag
  | StdoutNewline
  | CursorOff
  | CursorOn
  | RendererCreate DisplayOptions int int
  | InstallSignalHandlers
  | CallCreate string DisplayOptions bool bool
  | Open loader string
  | GeometryCall int int DisplayOptions
  | CallSendFrames string Duration int int
  | RenderFrame string nat
  | Suspend int

datatype decoded = Decoded nat int bool | EndOfStream | DecodeFail

text \<open>
  \<open>with_video\<close> is the compile-time switch \<^verbatim>\<open>WITH_TIMG_VIDEO\<close>; \<open>kNotInitialized\<close> is the
  constant of that name from \<^verbatim>\<open>image-source.h\<close>, which is not among the sources and is
  therefore a parameter; \<open>out_of_range\<close> is the result of an out-of-range conversion to
  \<^verbatim>\<open>int\<close>. \<open>open_result\<close> is the decoder's answer to opening a file (the native size, or
  failure), \<open>next_frame\<close> its answer to a request for the next frame, \<open>clock\<close> the time in
  milliseconds, and \<open>signal\<close> tells whether SIGINT or SIGTERM is delivered during the step
  that ends the given history.
\<close>

record world =
  with_video :: bool
  kNotInitialized :: int
  out_of_range :: "float32 \<Rightarrow> int"
  open_result :: "event list \<Rightarrow> (int \<times> int) option"
  next_frame :: "event list \<Rightarrow> decoded"
  clock :: "event list \<Rightarrow> int"
  signal :: "event list \<Rightarrow> bool"

record run =
  trace :: "event list"
  interrupt_received :: bool

text \<open>An effect before the signal handlers are installed.\<close>

definition append_event :: "event \<Rightarrow> run \<Rightarrow> run" where
  "append_event e s = s\<lparr>trace := trace s @ [e]\<rparr>"

text \<open>
  An effect after \<^verbatim>\<open>signal(SIGTERM, InterruptHandler)\<close> and \<^verbatim>\<open>signal(SIGINT, ...)\<close>: a signal
  delivered meanwhile runs \<^verbatim>\<open>InterruptHandler\<close>, which sets \<^verbatim>\<open>interrupt_received\<close>; nothing
  ever clears it. A signal that arrives while a call executes is seen at the next read of the
  flag, which is why delivery is attached to the event that ends the step.
\<close>

definition emit :: "world \<Rightarrow> event \<Rightarrow> run \<Rightarrow> run" where
  "emit env e s =
     \<lparr>trace = trace s @ [e],
      interrupt_received = (interrupt_received s \<or> signal env (trace s @ [e]))\<rparr>"

section \<open>Choosing a source: \<^verbatim>\<open>ImageSource::Create\<close>\<close>

record ImageSource =
  source_kind :: loader
  source_name :: string
  geometry :: ScaleResult

text \<open>
  Modelled from the spec: \<^verbatim>\<open>ImageLoader::LoadAndScale\<close> and \<^verbatim>\<open>VideoLoader::LoadAndScale\<close>
  (\<^verbatim>\<open>image-display.cc\<close> and \<^verbatim>\<open>video-display.cc\<close> are not among the sources). The decode
  backend opens the path and reports the native size or fails; on opening, the source's
  target geometry is computed once by \<^verbatim>\<open>CalcScaleToFitDisplay\<close> from the native size and the
  constraints that were passed in.
\<close>

definition LoadAndScale ::
  "world \<Rightarrow> loader \<Rightarrow> string \<Rightarrow> DisplayOptions \<Rightarrow> run \<Rightarrow> run \<times> ImageSource option" where
  "LoadAndScale env kind filename options s =
     (let s1 = emit env (Open kind filename) s
      in case open_result env (trace s1) of
           None \<Rightarrow> (s1, None)
         | Some (w, h) \<Rightarrow>
             (emit env (GeometryCall w h options) s1,
              Some \<lparr>source_kind = kind, source_name = filename,
                    geometry = CalcScaleToFitDisplay (out_of_range env) w h options\<rparr>))"

text \<open>
  \<^verbatim>\<open>ImageSource::Create\<close> (image-source.cc, lines 83 to 113). \<^verbatim>\<open>nullptr\<close> is \<open>None\<close>.
\<close>

definition Create ::
  "world \<Rightarrow> string \<Rightarrow> DisplayOptions \<Rightarrow> bool \<Rightarrow> bool \<Rightarrow> run \<Rightarrow> run \<times> ImageSource option" where
  "Create env filename options attempt_image_loading attempt_video_loading s =
     (let s0 = emit env
            (CallCreate filename options attempt_image_loading attempt_video_loading) s;
          (s1, from_image) =
            (if attempt_image_loading then LoadAndScale env ImageLoader filename options s0
             else (s0, None))
      in case from_image of
           Some result \<Rightarrow> (s1, Some result)
         | None \<Rightarrow>
             let (s2, from_video) =
                   (if with_video env \<and> attempt_video_loading
                    then LoadAndScale env VideoLoader filename options s1
                    else (s1, None))
             in case from_video of
                  Some result \<Rightarrow> (s2, Some result)
                | None \<Rightarrow>
                    let s3 = emit env (Stderr (CouldntLoad filename)) s2;
                        s4 = (if with_video env \<and>
                                 (filename = ''-'' \<or> filename = ''/dev/stdin'')
                              then emit env (Stderr StdinVideoHint) s3 else s3)
                    in (s4, None))"

section \<open>Playing a source\<close>

record PlaybackLimits =
  limit_duration :: Duration
  limit_frames :: int
  limit_loops :: int

record PlaybackState =
  loop_index :: int
  frames_emitted :: int
  at_loop_boundary :: bool
  started_at :: int

datatype stop_reason =
    Cancelled
  | DurationExceeded
  | FrameLimitReached
  | LoopLimitReached
  | SourceExhausted
  | DecodeError

definition duration_exceeded :: "Duration \<Rightarrow> int \<Rightarrow> bool" where
  "duration_exceeded d elapsed = (case d of InfiniteFuture \<Rightarrow> False | Millis n \<Rightarrow> n \<le> elapsed)"

text \<open>
  The loop count in force, after the usage text of \<^verbatim>\<open>timg.cc\<close>: \<open>-1\<close> means forever; if
  not set, videos behave like one loop and animated images like \<open>-1\<close>.
\<close>

definition loop_limit_reached :: "world \<Rightarrow> ImageSource \<Rightarrow> PlaybackLimits \<Rightarrow> PlaybackState \<Rightarrow> bool" where
  "loop_limit_reached env src limits ps =
     (let l = (if limit_loops limits = kNotInitialized env
               then (if source_kind src = VideoLoader then 1 else - 1)
               else limit_loops limits)
      in l \<noteq> - 1 \<and> l \<le> loop_index ps)"

text \<open>
  Modelled from the spec: \<^verbatim>\<open>SendFrames\<close> of the two loaders (not among the sources), the
  playback sequencer. Each cycle first evaluates the stop reasons in their fixed order:
  cancelled, duration exceeded, frame limit reached, loop limit reached (at a loop boundary
  only), source exhausted. Otherwise it decodes the next frame, hands it to the render
  callback, counts it, and suspends for the frame's delay. The flag is read after every
  emitted frame and after every delay. A sequencer that may play forever has no bound on its
  cycles: \<open>fuel\<close> is the number of cycles the run is followed for, and \<open>None\<close> says that
  the source was still playing then.
\<close>

fun play ::
  "nat \<Rightarrow> world \<Rightarrow> ImageSource \<Rightarrow> PlaybackLimits \<Rightarrow> PlaybackState \<Rightarrow> run
    \<Rightarrow> run \<times> stop_reason option" where
  "play 0 env src limits ps s = (s, None)"
| "play (Suc fuel) env src limits ps s =
     (if interrupt_received s then (s, Some Cancelled)
      else if duration_exceeded (limit_duration limits) (clock env (trace s) - started_at ps)
        then (s, Some DurationExceeded)
      else if limit_frames limits \<noteq> kNotInitialized env \<and> limit_frames limits \<le> frames_emitted ps
        then (s, Some FrameLimitReached)
      else if at_loop_boundary ps \<and> loop_limit_reached env src limits ps
        then (s, Some LoopLimitReached)
      else case next_frame env (trace s) of
             EndOfStream \<Rightarrow> (s, Some SourceExhausted)
           | DecodeFail \<Rightarrow>
               (emit env (Stderr (DecodeFailed (source_name src))) s, Some DecodeError)
           | Decoded frame delay wrap \<Rightarrow>
               let s1 = emit env (RenderFrame (source_name src) frame) s;
                   ps1 = ps\<lparr>loop_index := loop_index ps + (if wrap then 1 else 0),
                            frames_emitted := frames_emitted ps + 1,
                            at_loop_boundary := wrap\<rparr>;
                   s2 = (if 0 < delay \<and> \<not> interrupt_received s1
                         then emit env (Suspend delay) s1 else s1)
               in play fuel env src limits ps1 s2)"

definition SendFrames ::
  "nat \<Rightarrow> world \<Rightarrow> ImageSource \<Rightarrow> Duration \<Rightarrow> int \<Rightarrow> int \<Rightarrow> run \<Rightarrow> run \<times> stop_reason option" where
  "SendFrames fuel env src total_duration frame_limit loop_limit s =
     play fuel env src
       \<lparr>limit_duration = total_duration, limit_frames = frame_limit, limit_loops = loop_limit\<rparr>
       \<lparr>loop_index = 0, frames_emitted = 0, at_loop_boundary = False,
        started_at = clock env (trace s)\<rparr> s"

section \<open>The program: \<^verbatim>\<open>main\<close> after option parsing\<close>

datatype ExitCode = kSuccess | kImageReadError | kParameterError | kNotATerminal

fun exit_value :: "ExitCode \<Rightarrow> int" where
  "exit_value kSuccess = 0"
| "exit_value kImageReadError = 1"
| "exit_value kParameterError = 2"
| "exit_value kNotATerminal = 3"

text \<open>
  The local variables of \<^verbatim>\<open>main\<close> as the \<^verbatim>\<open>getopt_long\<close> loop leaves them (line 313);
  \<open>filenames\<close> are \<^verbatim>\<open>argv[optind]\<close> to \<^verbatim>\<open>argv[argc - 1]\<close>.
\<close>

record Parsed =
  term_size_valid :: bool
  term_width :: int
  term_height :: int
  display_opts :: DisplayOptions
  hide_cursor :: bool
  duration :: Duration
  max_frames :: int
  loops :: int
  grid_rows :: int
  grid_cols :: int
  fit_width :: bool
  do_image_loading :: bool
  do_video_loading :: bool
  filenames :: "string list"

text \<open>
  How the run ends: \<^verbatim>\<open>main\<close> returns a status, the process dies of an integer division by
  zero, or a source was still playing when the fuel ran out.
\<close>

datatype outcome = Returned int | DividedByZero | StillPlaying

definition usage :: "ExitCode \<Rightarrow> run \<Rightarrow> run \<times> outcome" where
  "usage exit_code s = (append_event (Stderr UsageText) s, Returned (exit_value exit_code))"

text \<open>
  The loop over the file arguments (lines 371 to 380). The flag returned tells whether the
  loop was left (\<open>True\<close>) or was still inside \<^verbatim>\<open>SendFrames\<close> when the fuel ran out.
\<close>

fun show_files ::
  "nat \<Rightarrow> world \<Rightarrow> DisplayOptions \<Rightarrow> bool \<Rightarrow> bool \<Rightarrow> Duration \<Rightarrow> int \<Rightarrow> int
    \<Rightarrow> string list \<Rightarrow> run \<Rightarrow> run \<times> bool" where
  "show_files fuel env options try_image try_video d frames lps [] s = (s, True)"
| "show_files fuel env options try_image try_video d frames lps (filename # rest) s =
     (if interrupt_received s then (s, True)
      else case Create env filename options try_image try_video s of
             (s1, None) \<Rightarrow> show_files fuel env options try_image try_video d frames lps rest s1
           | (s1, Some source) \<Rightarrow>
               (case SendFrames fuel env source d frames lps
                       (emit env (CallSendFrames filename d frames lps) s1) of
                  (s2, None) \<Rightarrow> (s2, False)
                | (s2, Some reason) \<Rightarrow>
                    show_files fuel env options try_image try_video d frames lps rest s2))"

text \<open>
  The display options as \<^verbatim>\<open>main\<close> resolves them before it creates the renderer
  (lines 331 to 353): no scrolling without movement, the fill flags, and two pixel rows
  per grid row left free for the file names. Integer values are within the range of
  \<^verbatim>\<open>int\<close>, where C's arithmetic agrees with that of the integers.
\<close>

definition canvas_options :: "Parsed \<Rightarrow> DisplayOptions" where
  "canvas_options p =
     (let opts = display_opts p;
          opts1 = (if scroll_dx opts = 0 \<and> scroll_dy opts = 0
                   then opts\<lparr>scroll_animation := False\<rparr> else opts);
          opts2 = opts1
            \<lparr>fill_width := fit_width p \<or> (scroll_animation opts1 \<and> scroll_dy opts1 \<noteq> 0),
             fill_height := scroll_animation opts1 \<and> scroll_dx opts1 \<noteq> 0\<rparr>
      in if show_filename opts2
         then opts2\<lparr>height := height opts2 - 2 * grid_rows p\<rparr> else opts2)"

text \<open>
  ``The image preprocessing might need to write it to a smaller area'' (lines 364 and
  365); \<^verbatim>\<open>/=\<close> truncates towards zero (\<open>sdiv\<close>).
\<close>

definition cell_options :: "Parsed \<Rightarrow> DisplayOptions" where
  "cell_options p =
     (canvas_options p)
       \<lparr>width := width (canvas_options p) sdiv grid_cols p,
        height := height (canvas_options p) sdiv grid_rows p\<rparr>"

text \<open>``Showing exactly one frame implies animation behaves as static image'' (lines 347 to 349).\<close>

definition playback_loops :: "Parsed \<Rightarrow> int" where
  "playback_loops p = (if max_frames p = 1 then 1 else loops p)"

text \<open>\<^verbatim>\<open>main\<close> from line 314, in the order of its statements.\<close>

definition main :: "nat \<Rightarrow> world \<Rightarrow> Parsed \<Rightarrow> run \<times> outcome" where
  "main fuel env p =
     (let start = \<lparr>trace = [], interrupt_received = False\<rparr>;
          opts = display_opts p
      in if width opts < 1 \<or> height opts < 1 then
           usage kNotATerminal
             (append_event
                (Stderr (if \<not> term_size_valid p \<or> term_height p < 0 \<or> term_width p < 0
                         then ReadSizeFailed
                         else UnusualSize (width opts) (height opts))) start)
         else if filenames p = [] then
           usage kImageReadError (append_event (Stderr ExpectedFilename) start)
         else
           let s1 = (if scroll_dx opts = 0 \<and> scroll_dy opts = 0
                     then append_event (Stderr ScrollZero) start else start);
               s2 = (if hide_cursor p then append_event CursorOff s1 else s1);
               s3 = append_event
                      (RendererCreate (canvas_options p) (grid_cols p) (grid_rows p)) s2
           in if grid_cols p = 0 \<or> grid_rows p = 0 then (s3, DividedByZero)
              else
                let s4 = emit env InstallSignalHandlers s3;
                    exit_code = 0
                in case show_files fuel env (cell_options p) (do_image_loading p)
                          (do_video_loading p) (duration p) (max_frames p) (playback_loops p)
                          (filenames p) s4 of
                     (s5, False) \<Rightarrow> (s5, StillPlaying)
                   | (s5, True) \<Rightarrow>
                       let s6 = (if hide_cursor p then emit env CursorOn s5 else s5);
                           s7 = (if interrupt_received s6 then emit env StdoutNewline s6 else s6)
                       in (s7, Returned exit_code))"

section \<open>Reading a trace\<close>

text \<open>The events that a step added to the run.\<close>

definition new_events :: "run \<Rightarrow> run \<Rightarrow> event list" where
  "new_events s s' = drop (length (trace s)) (trace s')"

fun is_frame :: "event \<Rightarrow> bool" where
  "is_frame (RenderFrame filename frame) = True"
| "is_frame e = False"

fun is_create :: "event \<Rightarrow> bool" where
  "is_create (CallCreate filename options i v) = True"
| "is_create e = False"

definition frames_shown :: "event list \<Rightarrow> nat" where
  "frames_shown tr = length (filter is_frame tr)"

text \<open>
  The value of \<^verbatim>\<open>interrupt_received\<close> after a history: a signal was delivered at some point
  of it at which the handlers were installed.
\<close>

definition flag_at :: "world \<Rightarrow> event list \<Rightarrow> bool" where
  "flag_at env tr =
     (\<exists>n \<in> {..length tr}. InstallSignalHandlers \<in> set (take n tr) \<and> signal env (take n tr))"

text \<open>No frame is rendered and no source is created once the flag is set.\<close>

definition quiet :: "world \<Rightarrow> event list \<Rightarrow> bool" where
  "quiet env tr =
     (\<forall>n < length tr. flag_at env (take n tr) \<longrightarrow> \<not> is_frame (tr ! n) \<and> \<not> is_create (tr ! n))"

text \<open>
  What the loop over the files may add to a trace, given the arguments it passes on.
\<close>

fun loop_event ::
  "DisplayOptions \<Rightarrow> bool \<Rightarrow> bool \<Rightarrow> Duration \<Rightarrow> int \<Rightarrow> int \<Rightarrow> event \<Rightarrow> bool" where
  "loop_event options i v d frames lps (CallCreate filename options' i' v') =
     (options' = options \<and> i' = i \<and> v' = v)"
| "loop_event options i v d frames lps (GeometryCall w h options') = (options' = options)"
| "loop_event options i v d frames lps (CallSendFrames filename d' frames' lps') =
     (d' = d \<and> frames' = frames \<and> lps' = lps)"
| "loop_event options i v d frames lps (Open kind filename) = True"
| "loop_event options i v d frames lps (RenderFrame filename frame) = True"
| "loop_event options i v d frames lps (Suspend delay) = True"
| "loop_event options i v d frames lps (Stderr m) = True"
| "loop_event options i v d frames lps e = False"

text \<open>What \<^verbatim>\<open>main\<close> may add to a trace.\<close>

fun main_event :: "Parsed \<Rightarrow> event \<Rightarrow> bool" where
  "main_event p (RendererCreate options cols rows) =
     (options = canvas_options p \<and> cols = grid_cols p \<and> rows = grid_rows p)"
| "main_event p (CallCreate filename options i v) =
     (options = cell_options p \<and> i = do_image_loading p \<and> v = do_video_loading p)"
| "main_event p (GeometryCall w h options) = (options = cell_options p)"
| "main_event p (CallSendFrames filename d frames lps) =
     (d = duration p \<and> frames = max_frames p \<and> lps = playback_loops p)"
| "main_event p e = True"

section \<open>Example worlds and command lines\<close>

text \<open>No file can be opened, no signal arrives, time stands still.\<close>

definition empty_world :: world where
  "empty_world =
     \<lparr>with_video = True, kNotInitialized = - 2147483648, out_of_range = x86_oor,
      open_result = (\<lambda>tr. None), next_frame = (\<lambda>tr. EndOfStream),
      clock = (\<lambda>tr. 0), signal = (\<lambda>tr. False)\<rparr>"

text \<open>Every file opens as a still image of the given size: one frame, then the end.\<close>

definition still_world :: "int \<Rightarrow> int \<Rightarrow> world" where
  "still_world w h =
     empty_world
       \<lparr>open_result := (\<lambda>tr. Some (w, h)),
        next_frame := (\<lambda>tr. if tr \<noteq> [] \<and> is_frame (last tr) then EndOfStream
                              else Decoded 0 0 False)\<rparr>"

text \<open>Every file opens, but its decoder has no frame to give.\<close>

definition frameless_world :: "int \<Rightarrow> int \<Rightarrow> world" where
  "frameless_world w h = empty_world\<lparr>open_result := (\<lambda>tr. Some (w, h))\<rparr>"

text \<open>Every file opens as an animation that never ends, 100 ms per frame.\<close>

definition animation_world :: "int \<Rightarrow> int \<Rightarrow> world" where
  "animation_world w h =
     empty_world
       \<lparr>open_result := (\<lambda>tr. Some (w, h)),
        next_frame := (\<lambda>tr. Decoded (frames_shown tr) 100 (odd (frames_shown tr)))\<rparr>"

text \<open>A world in which the signal arrives right after the handlers are installed.\<close>

definition interrupted :: "world \<Rightarrow> world" where
  "interrupted env = env\<lparr>signal := (\<lambda>tr. tr \<noteq> [] \<and> last tr = InstallSignalHandlers)\<rparr>"

text \<open>A world in which only the files named \<open>good\<close> open (as 64 by 64 stills).\<close>

definition selective_world :: "string \<Rightarrow> world" where
  "selective_world good =
     (still_world 64 64)
       \<lparr>open_result := (\<lambda>tr. if tr \<noteq> [] \<and> last tr = Open ImageLoader good
                                then Some (64, 64) else None)\<rparr>"

text \<open>\<^verbatim>\<open>timg -g<w>x<h> --grid=<cols>x<rows> --frames=<f> --loops=<l> files...\<close>\<close>

definition command_line ::
  "int \<Rightarrow> int \<Rightarrow> int \<Rightarrow> int \<Rightarrow> int \<Rightarrow> int \<Rightarrow> string list \<Rightarrow> Parsed" where
  "command_line w h cols rows f l files =
     \<lparr>term_size_valid = True, term_width = 80, term_height = 46,
      display_opts = geometry_options w h False False False,
      hide_cursor = True, duration = InfiniteFuture, max_frames = f, loops = l,
      grid_rows = rows, grid_cols = cols, fit_width = False,
      do_image_loading = True, do_video_loading = True, filenames = files\<rparr>"

text \<open>
  Two relations between the run and its trace, used as invariants: a step only adds events
  of a given kind; and the flag of the run is the one its history determines, with nothing
  rendered or created after it was set.
\<close>

definition adds :: "(event \<Rightarrow> bool) \<Rightarrow> run \<Rightarrow> run \<Rightarrow> bool" where
  "adds P s s' = (\<exists>evs. trace s' = trace s @ evs \<and> list_all P evs)"

definition flag_sound :: "world \<Rightarrow> run \<Rightarrow> bool" where
  "flag_sound env s \<longleftrightarrow>
     InstallSignalHandlers \<in> set (trace s) \<and>
     interrupt_received s = flag_at env (trace s) \<and>
     quiet env (trace s)"

section \<open>Facts about rounding to binary32\<close>

lemma pow2_powi: "pow2 e = 2 powi e"
  by (simp add: pow2_def power_int_def power_one_over inverse_eq_divide)

lemma pow2_pos: "0 < pow2 e"
  by (simp add: pow2_def)

lemma pow2_add: "pow2 (a + b) = pow2 a * pow2 b"
  by (simp add: pow2_powi power_int_add)

lemma pow2_diff: "pow2 (a - b) = pow2 a / pow2 b"
  by (simp add: pow2_powi power_int_diff)

lemma pow2_mono: "a \<le> b \<Longrightarrow> pow2 a \<le> pow2 b"
  by (simp add: pow2_powi power_int_increasing)

lemma pow2_strict_mono: "a < b \<Longrightarrow> pow2 a < pow2 b"
  by (simp add: pow2_powi power_int_strict_increasing)

lemma pow2_nat: "0 \<le> e \<Longrightarrow> pow2 e = 2 ^ nat e"
  by (simp add: pow2_def)

lemma bitlen_rat_bounds:
  assumes "0 < p"
  shows "pow2 (bitlen p - 1) \<le> of_int p" and "of_int p < pow2 (bitlen p)"
proof -
  have b: "2 ^ nat (bitlen p - 1) \<le> p" "p < 2 ^ nat (bitlen p)"
    using bitlen_bounds [OF assms] by simp_all
  have ge1: "1 \<le> bitlen p"
    using assms bitlen_eq_zero_iff [of p] bitlen_nonneg [of p] by linarith
  have "(of_int (2 ^ nat (bitlen p - 1)) :: rat) \<le> of_int p"
    using b(1) by (simp only: of_int_le_iff)
  then show "pow2 (bitlen p - 1) \<le> of_int p"
    using ge1 by (simp add: pow2_nat)
  have "(of_int p :: rat) < of_int (2 ^ nat (bitlen p))"
    using b(2) by (simp only: of_int_less_iff)
  then show "of_int p < pow2 (bitlen p)"
    using ge1 by (simp add: pow2_nat)
qed

lemma ilog2_bounds:
  assumes "0 < x"
  shows "pow2 (ilog2 x) \<le> x" and "x < pow2 (ilog2 x + 1)"
proof -
  obtain p q where pq: "quotient_of x = (p, q)"
    by (cases "quotient_of x")
  have q: "0 < q" using pq by (rule quotient_of_denom_pos)
  have x: "x = of_int p / of_int q" using pq by (rule quotient_of_div)
  have p: "0 < p"
    using assms q unfolding x by (simp add: zero_less_divide_iff)
  define d where "d = bitlen p - bitlen q"
  note bp = bitlen_rat_bounds [OF p] and bq = bitlen_rat_bounds [OF q]
  have qpos: "(0::rat) < of_int q" using q by simp
  have "x < pow2 (bitlen p) / pow2 (bitlen q - 1)"
    unfolding x using bp(2) bq(1) p pow2_pos [of "bitlen q - 1"]
    by (intro frac_less) simp_all
  also have "\<dots> = pow2 (d + 1)"
  proof -
    have "d + 1 = bitlen p - (bitlen q - 1)" by (simp add: d_def)
    then show ?thesis by (simp only: pow2_diff)
  qed
  finally have up: "x < pow2 (d + 1)" .
  have "pow2 (bitlen p - 1) / pow2 (bitlen q) < x"
    unfolding x using bp(1) bq(2) qpos pow2_pos [of "bitlen p - 1"]
    by (intro frac_less2) simp_all
  moreover have "pow2 (bitlen p - 1) / pow2 (bitlen q) = pow2 (d - 1)"
  proof -
    have "d - 1 = bitlen p - 1 - bitlen q" by (simp add: d_def)
    then show ?thesis by (simp only: pow2_diff)
  qed
  ultimately have lo: "pow2 (d - 1) < x" by simp
  have il: "ilog2 x = (if pow2 d \<le> x then d else d - 1)"
    by (simp add: ilog2_def pq d_def Let_def)
  show "pow2 (ilog2 x) \<le> x"
    using lo by (simp add: il)
  show "x < pow2 (ilog2 x + 1)"
    using up by (simp add: il not_le)
qed


lemma ilog2_nonneg: "1 \<le> x \<Longrightarrow> 0 \<le> ilog2 x"
proof (rule ccontr)
  assume x: "1 \<le> x" and "\<not> 0 \<le> ilog2 x"
  then have "ilog2 x + 1 \<le> 0" by simp
  then have "pow2 (ilog2 x + 1) \<le> pow2 0" by (rule pow2_mono)
  moreover have "x < pow2 (ilog2 x + 1)" using x by (intro ilog2_bounds) simp
  ultimately show False using x by (simp add: pow2_def)
qed

lemma ilog2_le: "0 < x \<Longrightarrow> x < pow2 k \<Longrightarrow> ilog2 x < k"
proof (rule ccontr)
  assume x: "0 < x" "x < pow2 k" and "\<not> ilog2 x < k"
  then have "pow2 k \<le> pow2 (ilog2 x)" by (intro pow2_mono) simp
  moreover have "pow2 (ilog2 x) \<le> x" using x(1) by (rule ilog2_bounds)
  ultimately show False using x(2) by simp
qed

lemma ilog2_ge: "pow2 k \<le> x \<Longrightarrow> k \<le> ilog2 x"
proof (rule ccontr)
  assume x: "pow2 k \<le> x" and "\<not> k \<le> ilog2 x"
  then have "pow2 (ilog2 x + 1) \<le> pow2 k" by (intro pow2_mono) simp
  moreover have "0 < x" using x pow2_pos [of k] by simp
  then have "x < pow2 (ilog2 x + 1)" by (rule ilog2_bounds)
  ultimately show False using x by simp
qed

lemma rhe_of_int: "round_half_even (of_int n) = n"
  by (simp add: round_half_even_def)

lemma rhe_ge: "of_int n \<le> y \<Longrightarrow> n \<le> round_half_even y"
  by (auto simp: round_half_even_def Let_def le_floor_iff) linarith+

lemma rhe_le: "y \<le> of_int n \<Longrightarrow> round_half_even y \<le> n"
  by (auto simp: round_half_even_def Let_def) linarith+

lemma rhe_above_half: "of_int n + 1 / 2 < y \<Longrightarrow> n + 1 \<le> round_half_even y"
  by (auto simp: round_half_even_def Let_def) linarith+


lemma round_binary32_pos:
  "0 < x \<Longrightarrow> round_binary32 x = of_int (round_half_even (x / quantum x)) * quantum x"
  by (simp add: round_binary32_def)

lemma quantum_normal: "- 126 \<le> ilog2 x \<Longrightarrow> quantum x = pow2 (ilog2 x - 23)"
  by (simp add: quantum_def max_def)

lemma round_binary32_lower:
  assumes "0 < x" and "- 126 \<le> ilog2 x"
  shows "pow2 (ilog2 x) \<le> round_binary32 x"
proof -
  define e where "e = ilog2 x"
  have q: "quantum x = pow2 (e - 23)" using assms(2) by (simp add: quantum_normal e_def)
  have "pow2 e / pow2 (e - 23) \<le> x / pow2 (e - 23)"
    using ilog2_bounds(1) [OF assms(1)] pow2_pos [of "e - 23"]
    by (simp add: e_def divide_right_mono)
  moreover have "pow2 e / pow2 (e - 23) = of_int (2 ^ 23)"
  proof -
    have "pow2 e / pow2 (e - 23) = pow2 (e - (e - 23))" by (simp only: pow2_diff)
    then show ?thesis by (simp add: pow2_def)
  qed
  ultimately have "of_int (2 ^ 23) \<le> x / pow2 (e - 23)" by simp
  then have "2 ^ 23 \<le> round_half_even (x / pow2 (e - 23))" by (rule rhe_ge)
  then have "(of_int (2 ^ 23) :: rat) \<le> of_int (round_half_even (x / pow2 (e - 23)))"
    by (simp only: of_int_le_iff)
  then have "of_int (2 ^ 23) * pow2 (e - 23)
      \<le> of_int (round_half_even (x / pow2 (e - 23))) * pow2 (e - 23)"
    using pow2_pos [of "e - 23"] by (simp only: mult_le_cancel_right_pos)
  moreover have "of_int (2 ^ 23) * pow2 (e - 23) = pow2 e"
  proof -
    have "pow2 (23 + (e - 23)) = pow2 23 * pow2 (e - 23)" by (rule pow2_add)
    moreover have "23 + (e - 23) = e" by simp
    moreover have "pow2 23 = of_int (2 ^ 23)" by (simp add: pow2_def)
    ultimately show ?thesis by simp
  qed
  ultimately show ?thesis
    using assms(1) by (simp add: round_binary32_pos q e_def)
qed

lemma round_binary32_upper:
  assumes "0 < x" and "- 126 \<le> ilog2 x"
  shows "round_binary32 x \<le> pow2 (ilog2 x + 1)"
proof -
  define e where "e = ilog2 x"
  have q: "quantum x = pow2 (e - 23)" using assms(2) by (simp add: quantum_normal e_def)
  have "x / pow2 (e - 23) \<le> pow2 (e + 1) / pow2 (e - 23)"
    using ilog2_bounds(2) [OF assms(1)] pow2_pos [of "e - 23"]
    by (simp add: e_def divide_right_mono)
  moreover have "pow2 (e + 1) / pow2 (e - 23) = of_int (2 ^ 24)"
  proof -
    have "pow2 (e + 1) / pow2 (e - 23) = pow2 (e + 1 - (e - 23))" by (simp only: pow2_diff)
    then show ?thesis by (simp add: pow2_def)
  qed
  ultimately have "x / pow2 (e - 23) \<le> of_int (2 ^ 24)" by simp
  then have "round_half_even (x / pow2 (e - 23)) \<le> 2 ^ 24" by (rule rhe_le)
  then have "(of_int (round_half_even (x / pow2 (e - 23))) :: rat) \<le> of_int (2 ^ 24)"
    by (simp only: of_int_le_iff)
  then have "of_int (round_half_even (x / pow2 (e - 23))) * pow2 (e - 23)
      \<le> of_int (2 ^ 24) * pow2 (e - 23)"
    using pow2_pos [of "e - 23"] by (simp only: mult_le_cancel_right_pos)
  moreover have "of_int (2 ^ 24) * pow2 (e - 23) = pow2 (e + 1)"
  proof -
    have "pow2 (24 + (e - 23)) = pow2 24 * pow2 (e - 23)" by (rule pow2_add)
    moreover have "24 + (e - 23) = e + 1" by simp
    moreover have "pow2 24 = of_int (2 ^ 24)" by (simp add: pow2_def)
    ultimately show ?thesis by simp
  qed
  ultimately show ?thesis
    using assms(1) by (simp add: round_binary32_pos q e_def)
qed

lemma round_binary32_above_one:
  assumes "1 + 1 / 2 ^ 24 < x"
  shows "1 < round_binary32 x"
proof -
  have x: "0 < x" "1 \<le> x" using assms by (simp_all add: add_pos_pos less_imp_le add_increasing2)
  have e0: "0 \<le> ilog2 x" using x(2) by (rule ilog2_nonneg)
  show ?thesis
  proof (cases "ilog2 x = 0")
    case True
    then have q: "quantum x = 1 / 2 ^ 23" by (simp add: quantum_def pow2_def)
    have "of_int (2 ^ 23) + 1 / 2 < x * 2 ^ 23" using assms by (simp add: field_simps)
    then have "2 ^ 23 + 1 \<le> round_half_even (x * 2 ^ 23)" by (rule rhe_above_half)
    then have "(of_int (2 ^ 23 + 1) :: rat) \<le> of_int (round_half_even (x * 2 ^ 23))"
      by (simp only: of_int_le_iff)
    then show ?thesis using x(1) by (simp add: round_binary32_pos q field_simps)
  next
    case False
    then have "1 \<le> ilog2 x" using e0 by simp
    then have "pow2 1 \<le> pow2 (ilog2 x)" by (rule pow2_mono)
    moreover have "pow2 (ilog2 x) \<le> round_binary32 x"
      using x(1) e0 by (intro round_binary32_lower) simp_all
    ultimately show ?thesis by (simp add: pow2_def)
  qed
qed

lemma round_binary32_below_one:
  assumes "1 / 2 ^ 24 \<le> x" and "x \<le> 1 - 1 / 2 ^ 24"
  shows "round_binary32 x < 1"
proof -
  have x: "0 < x" "x < 1" using assms by (simp_all add: less_le_trans [of 0 "1 / 2 ^ 24" x])
  have "pow2 (- 24) \<le> x" using assms(1) by (simp add: pow2_def)
  then have lo: "- 24 \<le> ilog2 x" by (rule ilog2_ge)
  have hi: "ilog2 x < 0" using x by (intro ilog2_le) (simp_all add: pow2_def)
  show ?thesis
  proof (cases "ilog2 x = - 1")
    case True
    then have q: "quantum x = 1 / 2 ^ 24" by (simp add: quantum_def pow2_def)
    have "x * 2 ^ 24 \<le> of_int (2 ^ 24 - 1)" using assms(2) by (simp add: field_simps)
    then have "round_half_even (x * 2 ^ 24) \<le> 2 ^ 24 - 1" by (rule rhe_le)
    then have "(of_int (round_half_even (x * 2 ^ 24)) :: rat) \<le> of_int (2 ^ 24 - 1)"
      by (simp only: of_int_le_iff)
    then show ?thesis using x(1) by (simp add: round_binary32_pos q field_simps)
  next
    case False
    then have "ilog2 x + 1 \<le> - 1" using hi by simp
    then have "pow2 (ilog2 x + 1) \<le> pow2 (- 1)" by (rule pow2_mono)
    moreover have "round_binary32 x \<le> pow2 (ilog2 x + 1)"
      using x(1) lo by (intro round_binary32_upper) simp_all
    ultimately show ?thesis by (simp add: pow2_def)
  qed
qed

lemma round_binary32_exact:
  assumes "1 \<le> n" and "n \<le> 2 ^ 24"
  shows "round_binary32 (of_int n) = of_int n"
proof -
  define x :: rat where "x = of_int n"
  have x: "0 < x" "1 \<le> x" using assms(1) by (simp_all add: x_def)
  have e0: "0 \<le> ilog2 x" using x(2) by (rule ilog2_nonneg)
  have "x < pow2 25" using assms(2) by (simp add: x_def pow2_def)
  with x(1) have e25: "ilog2 x < 25" by (rule ilog2_le)
  have q: "quantum x = pow2 (ilog2 x - 23)" using e0 by (intro quantum_normal) simp
  have "\<exists>k. x / quantum x = of_int k"
  proof (cases "ilog2 x = 24")
    case True
    then have "pow2 24 \<le> x" using ilog2_bounds(1) [OF x(1)] by simp
    then have "(of_int (2 ^ 24) :: rat) \<le> of_int n" by (simp add: pow2_def x_def)
    then have "2 ^ 24 \<le> n" by (simp only: of_int_le_iff)
    with assms(2) have "n = 2 ^ 24" by simp
    then have "x = 2 ^ 24" by (simp add: x_def)
    moreover have "quantum x = 2" by (simp add: q True pow2_def)
    ultimately have "x / quantum x = of_int (2 ^ 23)" by simp
    then show ?thesis ..
  next
    case False
    then have le: "ilog2 x \<le> 23" using e25 by simp
    have "pow2 (ilog2 x - 23) * pow2 (23 - ilog2 x) = 1"
      by (simp add: pow2_def flip: pow2_add)
    then have "x / quantum x = x * pow2 (23 - ilog2 x)"
      using pow2_pos [of "ilog2 x - 23"] by (simp add: q field_simps)
    also have "\<dots> = of_int (n * 2 ^ nat (23 - ilog2 x))"
      using le by (simp add: pow2_nat x_def)
    finally show ?thesis ..
  qed
  then obtain k where k: "x / quantum x = of_int k" ..
  have "of_int k * quantum x = x"
    using pow2_pos [of "ilog2 x - 23"] by (simp add: q flip: k)
  then show ?thesis
    using x(1) by (simp add: round_binary32_pos k rhe_of_int flip: x_def)
qed

lemma flt_not_fle: "flt x y \<Longrightarrow> \<not> fle y x"
  by (cases x; cases y) simp_all

lemma flt_irrefl: "\<not> flt x x"
  by (cases x) simp_all

lemma flt_asym: "flt x y \<Longrightarrow> \<not> flt y x"
  by (cases x; cases y) simp_all

lemma i2f_exact: "1 \<le> n \<Longrightarrow> n \<le> 2 ^ 24 \<Longrightarrow> i2f n = of_int n"
  by (simp add: i2f_def round_binary32_exact)

lemma to_binary32_one: "to_binary32 1 = Finite 1"
  using round_binary32_exact [of 1] by (simp add: to_binary32_def)

lemma to_binary32_exact:
  "1 \<le> n \<Longrightarrow> n \<le> 2 ^ 24 \<Longrightarrow> to_binary32 (of_int n) = Finite (of_int n)"
proof -
  assume n: "1 \<le> n" "n \<le> 2 ^ 24"
  then have "(of_int n :: rat) \<le> of_int (2 ^ 24)" by (simp only: of_int_le_iff)
  moreover have "(0 :: rat) \<le> of_int n" using n by simp
  ultimately show ?thesis
    using n by (simp add: to_binary32_def round_binary32_exact)
qed

lemma flt_one_to_binary32: "1 + 1 / 2 ^ 24 < x \<Longrightarrow> flt (Finite 1) (to_binary32 x)"
  using round_binary32_above_one [of x] by (simp add: to_binary32_def Let_def)

lemma flt_to_binary32_one:
  "1 / 2 ^ 24 \<le> x \<Longrightarrow> x \<le> 1 - 1 / 2 ^ 24 \<Longrightarrow> flt (to_binary32 x) (Finite 1)"
proof -
  assume x: "1 / 2 ^ 24 \<le> x" "x \<le> 1 - 1 / 2 ^ 24"
  then have "0 < x" by (simp add: less_le_trans [of 0 "1 / 2 ^ 24" x])
  then have "0 \<le> round_binary32 x"
    by (simp add: round_binary32_pos quantum_def pow2_pos less_imp_le rhe_ge [of 0, simplified])
  then show ?thesis
    using round_binary32_below_one [OF x] by (simp add: to_binary32_def Let_def)
qed

lemma fdiv_same: "1 \<le> a \<Longrightarrow> fdiv (of_int a) (of_int a) = Finite 1"
  by (simp add: fdiv_def to_binary32_one)

lemma fdiv_greater:
  assumes "1 \<le> b" and "b < a" and "a \<le> 2 ^ 24"
  shows "flt (Finite 1) (fdiv (of_int a) (of_int b))"
proof -
  have b: "(0 :: rat) < of_int b" using assms(1) by simp
  have "b + 1 \<le> a" "b < 2 ^ 24" using assms by simp_all
  then have "(of_int (b + 1) :: rat) \<le> of_int a" "(of_int b :: rat) < of_int (2 ^ 24)"
    by (simp_all only: of_int_le_iff of_int_less_iff)
  then have "1 + 1 / 2 ^ 24 < (of_int a :: rat) / of_int b"
    using b by (simp add: field_simps)
  then show ?thesis
    using b by (simp add: fdiv_def flt_one_to_binary32)
qed

lemma fdiv_smaller:
  assumes "1 \<le> a" and "a < b" and "b \<le> 2 ^ 24"
  shows "flt (fdiv (of_int a) (of_int b)) (Finite 1)"
proof -
  have b: "(0 :: rat) < of_int b" using assms by simp
  have "a + 1 \<le> b" using assms by simp
  then have le: "(of_int (a + 1) :: rat) \<le> of_int b" "(of_int b :: rat) \<le> of_int (2 ^ 24)"
      "(of_int 1 :: rat) \<le> of_int a"
    using assms by (simp_all only: of_int_le_iff)
  have "(of_int a :: rat) / of_int b \<le> 1 - 1 / 2 ^ 24"
    using b le by (simp add: field_simps)
  moreover have "1 / 2 ^ 24 \<le> (of_int a :: rat) / of_int b"
    using b le by (simp add: field_simps)
  ultimately show ?thesis
    using b by (simp add: fdiv_def flt_to_binary32_one)
qed

lemma fdiv_one_iff:
  assumes "1 \<le> a" "a \<le> 2 ^ 24" "1 \<le> b" "b \<le> 2 ^ 24"
    and "fle (fdiv (of_int a) (of_int b)) (Finite 1)"
    and "fle (Finite 1) (fdiv (of_int a) (of_int b))"
  shows "a = b"
  using assms fdiv_greater [of b a] fdiv_smaller [of a b]
    flt_not_fle [of "Finite 1" "fdiv (of_int a) (of_int b)"]
    flt_not_fle [of "fdiv (of_int a) (of_int b)" "Finite 1"]
  by (cases "a < b"; cases "b < a") simp_all

lemma round_half_away_of_int: "round_half_away (of_int n) = n"
proof -
  have "\<lfloor>(of_int n :: rat) + 1 / 2\<rfloor> = n" "\<lfloor>- (of_int n :: rat) + 1 / 2\<rfloor> = - n"
    by linarith+
  then show ?thesis by (simp add: round_half_away_def)
qed

lemma trunc_int_of_int: "trunc_int (of_int n) = n"
  by (simp add: trunc_int_def)

lemma identity_scale:
  assumes "1 \<le> n" "n \<le> 2 ^ 24"
  shows "f2i oor (roundf (fmul (Finite 1) (of_int n))) = n"
proof -
  have "n \<le> 2147483647" using assms(2) by simp
  then show ?thesis
    using assms
    by (simp add: to_binary32_exact round_half_away_of_int trunc_int_of_int INT_MIN_def INT_MAX_def)
qed















lemma fraction_is_one:
  assumes "1 \<le> a" "a \<le> 2 ^ 24" "1 \<le> b" "b \<le> 2 ^ 24"
    and "fle (Finite 1) (fdiv (of_int a) (of_int b))"
    and "\<not> fgt (fdiv (of_int a) (of_int b)) (Finite 1)"
  shows "a = b"
  using assms fdiv_greater [of b a] fdiv_smaller [of a b]
    flt_not_fle [of "fdiv (of_int a) (of_int b)" "Finite 1"]
  by (cases a b rule: linorder_cases) (auto simp: fgt_def)

section \<open>Properties of the target geometry\<close>

lemma at_least_one_ge: "1 \<le> at_least_one t"
  by (simp add: at_least_one_def)

lemma at_least_one_id: "1 \<le> t \<Longrightarrow> at_least_one t = t"
  by (simp add: at_least_one_def)



lemma fraction_50_100: "fdiv (i2f 100) (i2f 50) = Finite 2"
  by code_simp




text \<open>
  C1: for a native size of at least 1 by 1, both target dimensions are at least 1 on every
  path: the early return hands back the native size, every other path ends in the clamp.
  The bounds on the constraints that the claim also grants are not needed.
\<close>

theorem target_at_least_one:
  "1 \<le> img_width \<Longrightarrow> 1 \<le> img_height \<Longrightarrow>
   1 \<le> target_width (CalcScaleToFitDisplay oor img_width img_height options) \<and>
   1 \<le> target_height (CalcScaleToFitDisplay oor img_width img_height options)"
  by (simp add: CalcScaleToFitDisplay_def at_least_one_ge split: prod.splits)

theorem target_at_least_one_witness:
  "(1 :: int) \<le> 1000 \<and> (1 :: int) \<le> 1 \<and>
   1 \<le> target_width (CalcScaleToFitDisplay x86_oor 1000 1 (geometry_options 100 100 False False False)) \<and>
   1 \<le> target_height (CalcScaleToFitDisplay x86_oor 1000 1 (geometry_options 100 100 False False False))"
  using target_at_least_one [of 1000 1 x86_oor "geometry_options 100 100 False False False"]
  by simp

text \<open>
  C9: the flag returned is true exactly when the target differs from the native size in
  width or in height.
\<close>

theorem needs_scaling_iff_differs:
  "needs_scaling (CalcScaleToFitDisplay oor img_width img_height options) \<longleftrightarrow>
   target_width (CalcScaleToFitDisplay oor img_width img_height options) \<noteq> img_width \<or>
   target_height (CalcScaleToFitDisplay oor img_width img_height options) \<noteq> img_height"
  by (simp add: CalcScaleToFitDisplay_def split: prod.splits)

theorem needs_scaling_iff_differs_witness:
  "needs_scaling (CalcScaleToFitDisplay x86_oor 200 100 (geometry_options 100 100 True False False)) \<and>
   target_height (CalcScaleToFitDisplay x86_oor 200 100 (geometry_options 100 100 True False False)) = 50"
proof -
  have "target_height (CalcScaleToFitDisplay x86_oor 200 100 (geometry_options 100 100 True False False)) = 50"
    by code_simp
  then show ?thesis
    using needs_scaling_iff_differs [of x86_oor 200 100 "geometry_options 100 100 True False False"]
    by simp
qed

text \<open>
  C10: when the early return is not taken and exactly one fill flag is set, the
  hard-constrained axis is the constraint itself, not a product that was rounded: with only
  \<open>fill_height\<close> the target height before the clamp is \<open>height options\<close>, with only
  \<open>fill_width\<close> the target width is \<open>width options\<close>; the clamp then applies to it as to
  any value.
\<close>

theorem hard_axis_is_constraint:
  "\<not> no_upscale_return img_width img_height options \<Longrightarrow>
   (fill_height options \<and> \<not> fill_width options \<longrightarrow>
      snd (fit_targets oor img_width img_height options) = height options \<and>
      target_height (CalcScaleToFitDisplay oor img_width img_height options) =
        at_least_one (height options)) \<and>
   (fill_width options \<and> \<not> fill_height options \<longrightarrow>
      fst (fit_targets oor img_width img_height options) = width options \<and>
      target_width (CalcScaleToFitDisplay oor img_width img_height options) =
        at_least_one (width options))"
  by (simp add: CalcScaleToFitDisplay_def fit_targets_def Let_def split: prod.splits)

theorem hard_axis_is_constraint_witness:
  "\<not> no_upscale_return 200 100 (geometry_options 100 100 True False False) \<and>
   target_width (CalcScaleToFitDisplay x86_oor 200 100 (geometry_options 100 100 True False False)) = 100 \<and>
   \<not> no_upscale_return 100 200 (geometry_options 100 100 False True False) \<and>
   target_height (CalcScaleToFitDisplay x86_oor 100 200 (geometry_options 100 100 False True False)) = 100"
proof -
  have n: "\<not> no_upscale_return 200 100 (geometry_options 100 100 True False False)"
    and m: "\<not> no_upscale_return 100 200 (geometry_options 100 100 False True False)"
    by code_simp+
  show ?thesis
    using n m hard_axis_is_constraint [OF n, of x86_oor] hard_axis_is_constraint [OF m, of x86_oor]
    by (simp add: geometry_options_def at_least_one_def)
qed




text \<open>
  C2, amended: for native and constraint dimensions between 1 and \<open>2^24\<close> (the integers
  that a \<^verbatim>\<open>float\<close> holds exactly), if upscaling is disabled and both fractions are at
  least 1.0, then the result is the native size with the flag false, whatever the fill
  flags: by the early return, whose guard asks for each axis the other axis's fill flag or
  a fraction above 1.0, or else by a recomputation with the factor 1.0. The early return
  hands back the native size for every input. A 50 by 50 image in a 100 by 100 box without
  fill and without upscaling takes the early return and stays 50 by 50, unscaled.
\<close>

theorem no_upscale_keeps_native_size:
  "(1 \<le> img_width \<and> img_width \<le> 2 ^ 24 \<and> 1 \<le> img_height \<and> img_height \<le> 2 ^ 24 \<and>
    1 \<le> width options \<and> width options \<le> 2 ^ 24 \<and>
    1 \<le> height options \<and> height options \<le> 2 ^ 24 \<and>
    \<not> upscale options \<and>
    fle (Finite 1) (width_fraction img_width options) \<and>
    fle (Finite 1) (height_fraction img_height options)
    \<longrightarrow> CalcScaleToFitDisplay oor img_width img_height options =
         \<lparr>needs_scaling = False, target_width = img_width, target_height = img_height\<rparr>) \<and>
   (no_upscale_return img_width img_height options
    \<longrightarrow> CalcScaleToFitDisplay oor img_width img_height options =
         \<lparr>needs_scaling = False, target_width = img_width, target_height = img_height\<rparr>) \<and>
   CalcScaleToFitDisplay oor 50 50
     (options\<lparr>width := 100, height := 100, fill_width := False, fill_height := False,
        upscale := False\<rparr>) =
     \<lparr>needs_scaling = False, target_width = 50, target_height = 50\<rparr>"
proof (intro conjI impI)
  show "CalcScaleToFitDisplay oor 50 50
     (options\<lparr>width := 100, height := 100, fill_width := False, fill_height := False,
        upscale := False\<rparr>) =
     \<lparr>needs_scaling = False, target_width = 50, target_height = 50\<rparr>"
    by (simp add: CalcScaleToFitDisplay_def no_upscale_return_def width_fraction_def
        height_fraction_def fraction_50_100 fgt_def)
next
  assume "no_upscale_return img_width img_height options"
  then show "CalcScaleToFitDisplay oor img_width img_height options =
         \<lparr>needs_scaling = False, target_width = img_width, target_height = img_height\<rparr>"
    by (simp add: CalcScaleToFitDisplay_def)
next
  assume a: "1 \<le> img_width \<and> img_width \<le> 2 ^ 24 \<and> 1 \<le> img_height \<and> img_height \<le> 2 ^ 24 \<and>
    1 \<le> width options \<and> width options \<le> 2 ^ 24 \<and>
    1 \<le> height options \<and> height options \<le> 2 ^ 24 \<and>
    \<not> upscale options \<and>
    fle (Finite 1) (width_fraction img_width options) \<and>
    fle (Finite 1) (height_fraction img_height options)"
  then have w: "1 \<le> img_width" "img_width \<le> 2 ^ 24" and h: "1 \<le> img_height" "img_height \<le> 2 ^ 24"
    and W: "1 \<le> width options" "width options \<le> 2 ^ 24"
    and H: "1 \<le> height options" "height options \<le> 2 ^ 24"
    and up: "\<not> upscale options"
    and w1: "fle (Finite 1) (width_fraction img_width options)"
    and h1: "fle (Finite 1) (height_fraction img_height options)"
    by simp_all
  have wf: "width_fraction img_width options = fdiv (of_int (width options)) (of_int img_width)"
    and hf: "height_fraction img_height options = fdiv (of_int (height options)) (of_int img_height)"
    using w h W H by (simp_all add: width_fraction_def height_fraction_def i2f_exact)
  have weq: "width options = img_width \<and> width_fraction img_width options = Finite 1"
    if "\<not> fgt (width_fraction img_width options) (Finite 1)"
  proof -
    have "width options = img_width"
      using W w w1 that unfolding wf by (rule fraction_is_one)
    then show ?thesis using w by (simp add: wf fdiv_same)
  qed
  have heq: "height options = img_height \<and> height_fraction img_height options = Finite 1"
    if "\<not> fgt (height_fraction img_height options) (Finite 1)"
  proof -
    have "height options = img_height"
      using H h h1 that unfolding hf by (rule fraction_is_one)
    then show ?thesis using h by (simp add: hf fdiv_same)
  qed
  note idw = identity_scale [OF w, of oor] and idh = identity_scale [OF h, of oor]
  show "CalcScaleToFitDisplay oor img_width img_height options =
         \<lparr>needs_scaling = False, target_width = img_width, target_height = img_height\<rparr>"
  proof (cases "no_upscale_return img_width img_height options")
    case True
    then show ?thesis by (simp add: CalcScaleToFitDisplay_def)
  next
    case False
    consider (fh) "fill_height options" "\<not> fill_width options"
        "\<not> fgt (height_fraction img_height options) (Finite 1)"
      | (fw) "fill_width options" "\<not> fill_height options"
        "\<not> fgt (width_fraction img_width options) (Finite 1)"
      | (none) "\<not> fill_width options" "\<not> fill_height options"
        "\<not> fgt (width_fraction img_width options) (Finite 1) \<or>
         \<not> fgt (height_fraction img_height options) (Finite 1)"
      using False up by (auto simp: no_upscale_return_def)
    then show ?thesis
    proof cases
      case fh
      show ?thesis
        using fh(1,2) False w h heq [OF fh(3)] idw
        by (simp add: CalcScaleToFitDisplay_def fit_targets_def at_least_one_def i2f_exact
            del: fmul.simps)
    next
      case fw
      show ?thesis
        using fw(1,2) False w h weq [OF fw(3)] idh
        by (simp add: CalcScaleToFitDisplay_def fit_targets_def at_least_one_def i2f_exact
            del: fmul.simps)
    next
      case none
      define smaller where "smaller =
        (if flt (width_fraction img_width options) (height_fraction img_height options)
         then width_fraction img_width options else height_fraction img_height options)"
      have "smaller = Finite 1"
      proof (cases "fgt (width_fraction img_width options) (Finite 1)")
        case True
        then have e: "height_fraction img_height options = Finite 1"
          using none(3) heq by simp
        have "\<not> flt (width_fraction img_width options) (Finite 1)"
          using w1 flt_not_fle by blast
        then show ?thesis by (simp add: smaller_def e)
      next
        case nw: False
        then have e: "width_fraction img_width options = Finite 1"
          using weq by simp
        show ?thesis
        proof (cases "fgt (height_fraction img_height options) (Finite 1)")
          case True
          then show ?thesis by (simp add: smaller_def e fgt_def)
        next
          case False
          then have "height_fraction img_height options = Finite 1" using heq by simp
          then show ?thesis by (simp add: smaller_def e)
        qed
      qed
      then show ?thesis
        using none(1,2) False w h idw idh
        by (simp add: CalcScaleToFitDisplay_def fit_targets_def at_least_one_def i2f_exact
            smaller_def [symmetric] del: fmul.simps)
    qed
  qed
qed

theorem no_upscale_keeps_native_size_witness:
  "\<not> upscale (geometry_options 100 100 False False False) \<and>
   fle (Finite 1) (width_fraction 50 (geometry_options 100 100 False False False)) \<and>
   fle (Finite 1) (height_fraction 50 (geometry_options 100 100 False False False)) \<and>
   no_upscale_return 50 50 (geometry_options 100 100 False False False) \<and>
   CalcScaleToFitDisplay x86_oor 50 50 (geometry_options 100 100 False False False) =
     \<lparr>needs_scaling = False, target_width = 50, target_height = 50\<rparr> \<and>
   \<not> upscale (geometry_options 640 480 False True False) \<and>
   fle (Finite 1) (width_fraction 640 (geometry_options 640 480 False True False)) \<and>
   fle (Finite 1) (height_fraction 480 (geometry_options 640 480 False True False)) \<and>
   \<not> no_upscale_return 640 480 (geometry_options 640 480 False True False) \<and>
   CalcScaleToFitDisplay x86_oor 640 480 (geometry_options 640 480 False True False) =
     \<lparr>needs_scaling = False, target_width = 640, target_height = 480\<rparr>"
proof -
  have f: "fle (Finite 1) (width_fraction 50 (geometry_options 100 100 False False False))"
    "fle (Finite 1) (height_fraction 50 (geometry_options 100 100 False False False))"
    "no_upscale_return 50 50 (geometry_options 100 100 False False False)"
    "fle (Finite 1) (width_fraction 640 (geometry_options 640 480 False True False))"
    "fle (Finite 1) (height_fraction 480 (geometry_options 640 480 False True False))"
    "\<not> no_upscale_return 640 480 (geometry_options 640 480 False True False)"
    by code_simp+
  have o: "width (geometry_options a b fw fh up) = a"
    "height (geometry_options a b fw fh up) = b"
    "upscale (geometry_options a b fw fh up) = up" for a b fw fh up
    by (simp_all add: geometry_options_def)
  show ?thesis
    using f
      no_upscale_keeps_native_size [of 50 50 "geometry_options 100 100 False False False" x86_oor]
      no_upscale_keeps_native_size [of 640 480 "geometry_options 640 480 False True False" x86_oor]
    by (simp add: o)
qed

text \<open>
  The claim without the bound fails: a 16777217 by 1 image in a box of its own size, with
  only \<open>fill_height\<close> and without upscaling, satisfies every condition of the claim, yet
  the width is recomputed through a \<^verbatim>\<open>float\<close> that cannot hold 16777217, and the image
  is reported as to be scaled to 16777216 by 1.
\<close>

theorem no_upscale_keeps_native_size_counterexample:
  "\<not> upscale (geometry_options 16777217 1 False True False) \<and>
   (fill_height (geometry_options 16777217 1 False True False) \<or>
    fle (width_fraction 16777217 (geometry_options 16777217 1 False True False)) (Finite 1)) \<and>
   (fill_width (geometry_options 16777217 1 False True False) \<or>
    fle (height_fraction 1 (geometry_options 16777217 1 False True False)) (Finite 1)) \<and>
   fle (Finite 1) (width_fraction 16777217 (geometry_options 16777217 1 False True False)) \<and>
   fle (Finite 1) (height_fraction 1 (geometry_options 16777217 1 False True False)) \<and>
   CalcScaleToFitDisplay x86_oor 16777217 1 (geometry_options 16777217 1 False True False) =
     \<lparr>needs_scaling = True, target_width = 16777216, target_height = 1\<rparr> \<and>
   CalcScaleToFitDisplay x86_oor 16777217 1 (geometry_options 16777217 1 False True False) \<noteq>
     \<lparr>needs_scaling = False, target_width = 16777217, target_height = 1\<rparr>"
  by code_simp

section \<open>Facts about runs and their traces\<close>

lemma trace_emit [simp]: "trace (emit env e s) = trace s @ [e]"
  by (simp add: emit_def)

lemma flag_emit:
  "interrupt_received (emit env e s) = (interrupt_received s \<or> signal env (trace s @ [e]))"
  by (simp add: emit_def)

lemma trace_append_event [simp]: "trace (append_event e s) = trace s @ [e]"
  by (simp add: append_event_def)

lemma flag_append_event [simp]: "interrupt_received (append_event e s) = interrupt_received s"
  by (simp add: append_event_def)

lemma adds_refl: "adds P s s"
  by (simp add: adds_def)

lemma adds_trans: "adds P s s' \<Longrightarrow> adds P s' s'' \<Longrightarrow> adds P s s''"
  by (auto simp: adds_def)

lemma adds_emit: "P e \<Longrightarrow> adds P s (emit env e s)"
  by (simp add: adds_def)

lemma adds_mono: "adds P s s' \<Longrightarrow> (\<And>e. P e \<Longrightarrow> Q e) \<Longrightarrow> adds Q s s'"
  by (auto simp: adds_def list_all_iff)

lemma adds_set: "adds P s s' \<Longrightarrow> e \<in> set (trace s') \<Longrightarrow> e \<in> set (trace s) \<or> P e"
  by (auto simp: adds_def list_all_iff)

lemma adds_new_events: "adds P s s' \<Longrightarrow> list_all P (new_events s s')"
  by (auto simp: adds_def new_events_def)

lemma adds_trace: "adds P s s' \<Longrightarrow> trace s' = trace s @ new_events s s'"
  by (auto simp: adds_def new_events_def)

lemma LoadAndScale_adds:
  "adds (\<lambda>e. e = Open kind filename \<or> (\<exists>w h. e = GeometryCall w h options))
     s (fst (LoadAndScale env kind filename options s))"
  by (auto simp: LoadAndScale_def Let_def adds_def split: option.splits)

lemma Create_unfold:
  "Create env filename options i v s =
     (let s0 = emit env (CallCreate filename options i v) s;
          r1 = (if i then LoadAndScale env ImageLoader filename options s0 else (s0, None))
      in if snd r1 \<noteq> None then r1
         else
           let r2 = (if with_video env \<and> v
                     then LoadAndScale env VideoLoader filename options (fst r1)
                     else (fst r1, None))
           in if snd r2 \<noteq> None then r2
              else
                (let s3 = emit env (Stderr (CouldntLoad filename)) (fst r2)
                 in if with_video env \<and> (filename = ''-'' \<or> filename = ''/dev/stdin'')
                    then emit env (Stderr StdinVideoHint) s3 else s3, None))"
proof -
  obtain s1 r1 where a: "(if i then LoadAndScale env ImageLoader filename options
      (emit env (CallCreate filename options i v) s)
      else (emit env (CallCreate filename options i v) s, None)) = (s1, r1)"
    by (rule prod.exhaust)
  obtain s2 r2 where b: "(if with_video env \<and> v
                     then LoadAndScale env VideoLoader filename options s1
                     else (s1, None)) = (s2, r2)"
    by (rule prod.exhaust)
  show ?thesis
    unfolding Create_def Let_def a prod.case fst_conv snd_conv b
    by (cases r1; cases r2) simp_all
qed


lemma Create_adds:
  "adds (\<lambda>e. e = CallCreate filename options i v \<or> (\<exists>kind. e = Open kind filename) \<or>
          (\<exists>w h. e = GeometryCall w h options) \<or> (\<exists>m. e = Stderr m))
     s (fst (Create env filename options i v s))"
proof -
  define P where "P = (\<lambda>e. e = CallCreate filename options i v \<or>
     (\<exists>kind. e = Open kind filename) \<or> (\<exists>w h. e = GeometryCall w h options) \<or>
     (\<exists>m. e = Stderr m))"
  define s0 where "s0 = emit env (CallCreate filename options i v) s"
  have start: "adds P s s0"
    unfolding s0_def by (rule adds_emit) (simp add: P_def)
  have load: "adds P s (fst (LoadAndScale env kind filename options t))" if "adds P s t"
    for t kind
    by (rule adds_trans [OF that]) (rule adds_mono [OF LoadAndScale_adds], auto simp: P_def)
  have report: "adds P s (emit env (Stderr m) t)" if "adds P s t" for t m
    by (rule adds_trans [OF that]) (rule adds_emit, simp add: P_def)
  have "adds P s (fst (Create env filename options i v s))"
    unfolding Create_unfold Let_def s0_def [symmetric]
    using start by (simp add: load report)
  then show ?thesis by (simp only: P_def)
qed


lemma play_adds:
  "adds (\<lambda>e. (\<exists>frame. e = RenderFrame (source_name src) frame) \<or> (\<exists>delay. e = Suspend delay) \<or>
          (\<exists>m. e = Stderr m))
     s (fst (play fuel env src limits ps s))"
proof (induction fuel arbitrary: ps s)
  case 0
  show ?case by (simp add: adds_refl)
next
  case (Suc fuel)
  define P where "P = (\<lambda>e. (\<exists>frame. e = RenderFrame (source_name src) frame) \<or>
     (\<exists>delay. e = Suspend delay) \<or> (\<exists>m. e = Stderr m))"
  have ih: "adds P t (fst (play fuel env src limits ps' t))" for ps' t
    using Suc.IH by (simp add: P_def)
  have frame: "adds P s (emit env (RenderFrame (source_name src) frame) s)" for frame
    by (rule adds_emit) (simp add: P_def)
  have pause: "adds P t (emit env (Suspend delay) t)" for t delay
    by (rule adds_emit) (simp add: P_def)
  have report: "adds P s (emit env (Stderr m) s)" for m
    by (rule adds_emit) (simp add: P_def)
  have "adds P s (fst (play (Suc fuel) env src limits ps s))"
    by (auto simp: Let_def adds_refl report split: decoded.splits
        intro: adds_trans [OF frame ih] adds_trans [OF frame adds_trans [OF pause ih]])
  then show ?case by (simp only: P_def)
qed

lemma SendFrames_adds:
  "adds (\<lambda>e. (\<exists>frame. e = RenderFrame (source_name src) frame) \<or> (\<exists>delay. e = Suspend delay) \<or>
          (\<exists>m. e = Stderr m))
     s (fst (SendFrames fuel env src d frames lps s))"
  unfolding SendFrames_def by (rule play_adds)

lemma show_files_adds:
  "adds (loop_event options i v d frames lps) s
     (fst (show_files fuel env options i v d frames lps files s))"
proof (induction files arbitrary: s)
  case Nil
  show ?case by (simp add: adds_refl)
next
  case (Cons filename rest)
  let ?P = "loop_event options i v d frames lps"
  obtain s1 r where c: "Create env filename options i v s = (s1, r)"
    by (rule prod.exhaust)
  have "adds ?P s (fst (Create env filename options i v s))"
    by (rule adds_mono [OF Create_adds]) auto
  then have a1: "adds ?P s s1"
    by (simp add: c)
  show ?case
  proof (cases "interrupt_received s")
    case True
    then show ?thesis by (simp add: adds_refl)
  next
    case False
    show ?thesis
    proof (cases r)
      case None
      then show ?thesis
        using False c adds_trans [OF a1 Cons.IH [of s1]] by simp
    next
      case (Some source)
      define s1' where "s1' = emit env (CallSendFrames filename d frames lps) s1"
      obtain s2 q where p: "SendFrames fuel env source d frames lps s1' = (s2, q)"
        by (rule prod.exhaust)
      have "adds ?P s1 s1'"
        unfolding s1'_def by (rule adds_emit) simp
      moreover have "adds ?P s1' (fst (SendFrames fuel env source d frames lps s1'))"
        by (rule adds_mono [OF SendFrames_adds]) auto
      then have "adds ?P s1' s2"
        by (simp add: p)
      ultimately have a2: "adds ?P s s2"
        using a1 by (blast intro: adds_trans)
      show ?thesis
        using False c Some p a2 adds_trans [OF a2 Cons.IH [of s2]]
        by (cases q) (simp_all flip: s1'_def)
    qed
  qed
qed


lemma adds_append_event: "P e \<Longrightarrow> adds P s (append_event e s)"
  by (simp add: adds_def)

lemma main_adds:
  "adds (main_event p) \<lparr>trace = [], interrupt_received = False\<rparr> (fst (main fuel env p))"
proof -
  define start where "start = \<lparr>trace = [], interrupt_received = False\<rparr>"
  define P where "P = main_event p"
  have quiet_step: "adds P start (append_event e t)"
    if "adds P start t" "main_event p e" for t e
    by (rule adds_trans [OF that(1)]) (rule adds_append_event, simp add: P_def that(2))
  have emit_step: "adds P start (emit env e t)"
    if "adds P start t" "main_event p e" for t e
    by (rule adds_trans [OF that(1)]) (rule adds_emit, simp add: P_def that(2))
  define s1 where "s1 = (if scroll_dx (display_opts p) = 0 \<and> scroll_dy (display_opts p) = 0
                     then append_event (Stderr ScrollZero) start else start)"
  define s2 where "s2 = (if hide_cursor p then append_event CursorOff s1 else s1)"
  define s3 where "s3 = append_event
                      (RendererCreate (canvas_options p) (grid_cols p) (grid_rows p)) s2"
  define s4 where "s4 = emit env InstallSignalHandlers s3"
  have a1: "adds P start s1"
    by (simp add: s1_def quiet_step adds_refl)
  then have a2: "adds P start s2"
    by (simp add: s2_def quiet_step)
  then have a3: "adds P start s3"
    by (simp add: s3_def quiet_step)
  then have a4: "adds P start s4"
    by (simp add: s4_def emit_step)
  obtain s5 fin where sf: "show_files fuel env (cell_options p) (do_image_loading p)
      (do_video_loading p) (duration p) (max_frames p) (playback_loops p) (filenames p) s4
      = (s5, fin)"
    by (rule prod.exhaust)
  have "adds P s4 (fst (show_files fuel env (cell_options p) (do_image_loading p)
      (do_video_loading p) (duration p) (max_frames p) (playback_loops p) (filenames p) s4))"
    unfolding P_def
  proof (rule adds_mono [OF show_files_adds])
    fix e
    assume "loop_event (cell_options p) (do_image_loading p) (do_video_loading p)
      (duration p) (max_frames p) (playback_loops p) e"
    then show "main_event p e" by (cases e) simp_all
  qed
  with a4 have a5: "adds P start s5"
    by (simp add: sf adds_trans)
  have "adds P start (fst (main fuel env p))"
    unfolding main_def Let_def usage_def start_def [symmetric] s1_def [symmetric]
      s2_def [symmetric] s3_def [symmetric] s4_def [symmetric] sf
    using a3 a5 by (cases fin) (simp_all add: quiet_step emit_step adds_refl)
  then show ?thesis by (simp only: P_def start_def)
qed

lemma main_events: "e \<in> set (trace (fst (main fuel env p))) \<Longrightarrow> main_event p e"
  using adds_set [OF main_adds] by fastforce

lemma flag_at_snoc:
  "flag_at env (tr @ [e]) =
     (flag_at env tr \<or> (InstallSignalHandlers \<in> set (tr @ [e]) \<and> signal env (tr @ [e])))"
proof -
  have "{..length (tr @ [e])} = insert (Suc (length tr)) {..length tr}"
    by (simp add: atMost_Suc)
  then show ?thesis
    by (auto simp: flag_at_def)
qed

lemma no_install_no_flag: "InstallSignalHandlers \<notin> set tr \<Longrightarrow> \<not> flag_at env tr"
  by (auto simp: flag_at_def dest: in_set_takeD)

lemma quiet_snoc:
  "quiet env (tr @ [e]) =
     (quiet env tr \<and> (flag_at env tr \<longrightarrow> \<not> is_frame e \<and> \<not> is_create e))"
  by (auto simp: quiet_def less_Suc_eq nth_append)

lemma no_install_quiet: "InstallSignalHandlers \<notin> set tr \<Longrightarrow> quiet env tr"
proof -
  assume a: "InstallSignalHandlers \<notin> set tr"
  have "\<not> flag_at env (take n tr)" for n
    using a by (intro no_install_no_flag) (auto dest: in_set_takeD)
  then show ?thesis by (simp add: quiet_def)
qed

lemma quiet_split:
  "quiet env (pre @ post) \<Longrightarrow> flag_at env pre \<Longrightarrow>
   list_all (\<lambda>e. \<not> is_frame e \<and> \<not> is_create e) post"
proof (induction post rule: rev_induct)
  case Nil
  show ?case by simp
next
  case (snoc e post)
  from snoc.prems(1) have q: "quiet env (pre @ post)"
    and l: "flag_at env (pre @ post) \<longrightarrow> \<not> is_frame e \<and> \<not> is_create e"
    by (simp_all add: quiet_snoc flip: append_assoc)
  have "flag_at env (pre @ post)"
    using snoc.prems(2) by (induction post rule: rev_induct) (simp_all add: flag_at_snoc flip: append_assoc)
  with l snoc.IH [OF q snoc.prems(2)] show ?case by simp
qed

lemma flag_sound_emit:
  assumes "flag_sound env s"
    and "is_frame e \<or> is_create e \<Longrightarrow> \<not> interrupt_received s"
  shows "flag_sound env (emit env e s)"
  using assms by (auto simp: flag_sound_def flag_emit flag_at_snoc quiet_snoc)

lemma flag_sound_LoadAndScale:
  "flag_sound env s \<Longrightarrow> flag_sound env (fst (LoadAndScale env kind filename options s))"
  by (auto simp: LoadAndScale_def Let_def split: option.splits intro!: flag_sound_emit)

lemma flag_sound_Create:
  assumes "flag_sound env s" and "\<not> interrupt_received s"
  shows "flag_sound env (fst (Create env filename options i v s))"
proof -
  have start: "flag_sound env (emit env (CallCreate filename options i v) s)"
    using assms by (intro flag_sound_emit) simp_all
  have report: "flag_sound env (emit env (Stderr m) t)" if "flag_sound env t" for t m
    using that by (intro flag_sound_emit) simp_all
  define s0 where "s0 = emit env (CallCreate filename options i v) s"
  show ?thesis
    unfolding Create_unfold Let_def s0_def [symmetric]
    using start [folded s0_def] by (simp add: flag_sound_LoadAndScale report)
qed

lemma flag_sound_play:
  "flag_sound env s \<Longrightarrow> flag_sound env (fst (play fuel env src limits ps s))"
proof (induction fuel arbitrary: ps s)
  case 0
  then show ?case by simp
next
  case (Suc fuel)
  have frame: "flag_sound env (emit env (RenderFrame (source_name src) frame) s)"
    if "\<not> interrupt_received s" for frame
    using Suc.prems that by (intro flag_sound_emit) simp_all
  have other: "flag_sound env (emit env e t)"
    if "flag_sound env t" "\<not> is_frame e" "\<not> is_create e" for t e
    using that by (intro flag_sound_emit) simp_all
  show ?case
    using Suc.prems
    by (auto simp: Let_def split: decoded.splits intro!: Suc.IH other frame)
qed

lemma flag_sound_SendFrames:
  "flag_sound env s \<Longrightarrow> flag_sound env (fst (SendFrames fuel env src d frames lps s))"
  unfolding SendFrames_def by (rule flag_sound_play)

lemma flag_sound_show_files:
  "flag_sound env s \<Longrightarrow>
   flag_sound env (fst (show_files fuel env options i v d frames lps files s))"
proof (induction files arbitrary: s)
  case Nil
  then show ?case by simp
next
  case (Cons filename rest)
  show ?case
  proof (cases "interrupt_received s")
    case True
    then show ?thesis using Cons.prems by simp
  next
    case False
    obtain s1 r where c: "Create env filename options i v s = (s1, r)"
      by (rule prod.exhaust)
    have f1: "flag_sound env s1"
      using flag_sound_Create [OF Cons.prems False, of filename options i v] by (simp add: c)
    show ?thesis
    proof (cases r)
      case None
      then show ?thesis using False c Cons.IH [OF f1] by simp
    next
      case (Some source)
      define s1' where "s1' = emit env (CallSendFrames filename d frames lps) s1"
      obtain s2 q where p: "SendFrames fuel env source d frames lps s1' = (s2, q)"
        by (rule prod.exhaust)
      have "flag_sound env s1'"
        unfolding s1'_def using f1 by (intro flag_sound_emit) simp_all
      then have f2: "flag_sound env s2"
        using flag_sound_SendFrames [of env s1' fuel source d frames lps] by (simp add: p)
      show ?thesis
        using False c Some p f2 Cons.IH [OF f2]
        by (cases q) (simp_all flip: s1'_def)
    qed
  qed
qed

lemma main_quiet: "quiet env (trace (fst (main fuel env p)))"
proof -
  define start where "start = \<lparr>trace = [], interrupt_received = False\<rparr>"
  define s1 where "s1 = (if scroll_dx (display_opts p) = 0 \<and> scroll_dy (display_opts p) = 0
                     then append_event (Stderr ScrollZero) start else start)"
  define s2 where "s2 = (if hide_cursor p then append_event CursorOff s1 else s1)"
  define s3 where "s3 = append_event
                      (RendererCreate (canvas_options p) (grid_cols p) (grid_rows p)) s2"
  define s4 where "s4 = emit env InstallSignalHandlers s3"
  have n3: "InstallSignalHandlers \<notin> set (trace s3)" and i3: "\<not> interrupt_received s3"
    by (simp_all add: s3_def s2_def s1_def start_def)
  have f4: "flag_sound env s4"
    using n3 i3
    by (simp add: flag_sound_def s4_def flag_emit flag_at_snoc quiet_snoc no_install_no_flag
        no_install_quiet)
  obtain s5 fin where sf: "show_files fuel env (cell_options p) (do_image_loading p)
      (do_video_loading p) (duration p) (max_frames p) (playback_loops p) (filenames p) s4
      = (s5, fin)"
    by (rule prod.exhaust)
  have f5: "flag_sound env s5"
    using flag_sound_show_files [OF f4, of fuel "cell_options p" "do_image_loading p"
        "do_video_loading p" "duration p" "max_frames p" "playback_loops p" "filenames p"]
    by (simp add: sf)
  have tail: "flag_sound env (emit env e t)"
    if "flag_sound env t" "\<not> is_frame e" "\<not> is_create e" for t e
    using that by (intro flag_sound_emit) simp_all
  have q: "quiet env (trace t)" if "flag_sound env t" for t
    using that by (simp add: flag_sound_def)
  have early: "quiet env (trace start @ [Stderr m, Stderr UsageText])" for m
    by (rule no_install_quiet) (simp add: start_def)
  have q3: "quiet env (trace s3)"
    using n3 by (rule no_install_quiet)
  show ?thesis
    unfolding main_def Let_def usage_def start_def [symmetric] s1_def [symmetric]
      s2_def [symmetric] s3_def [symmetric] s4_def [symmetric] sf
    using q3 f5 by (cases fin) (simp_all add: early q tail)
qed

lemma new_events_same [simp]: "new_events s s = []"
  by (simp add: new_events_def)

lemma new_events_emit [simp]: "new_events s (emit env e s) = [e]"
  by (simp add: new_events_def)

lemma new_events_emit2 [simp]: "new_events s (emit env e' (emit env e s)) = [e, e']"
  by (simp add: new_events_def)

lemma play_frame_limit:
  assumes "limit_frames limits \<noteq> kNotInitialized env"
    and "limit_frames limits \<le> frames_emitted ps"
  shows "\<exists>reason. play (Suc n) env src limits ps s = (s, Some reason)"
  using assms by simp

lemma SendFrames_single_frame:
  assumes "kNotInitialized env \<noteq> 1"
  shows "\<exists>s' reason. SendFrames (Suc (Suc n)) env src d 1 lps s = (s', Some reason) \<and>
     frames_shown (new_events s s') \<le> 1 \<and>
     (frames_shown (new_events s s') = 1 \<longleftrightarrow>
        \<not> interrupt_received s \<and> \<not> duration_exceeded d 0 \<and>
        (\<exists>frame delay wrap. next_frame env (trace s) = Decoded frame delay wrap))"
proof -
  define limits where
    "limits = \<lparr>limit_duration = d, limit_frames = 1, limit_loops = lps\<rparr>"
  define ps where "ps = \<lparr>loop_index = 0, frames_emitted = 0, at_loop_boundary = False,
        started_at = clock env (trace s)\<rparr>"
  have sf: "SendFrames (Suc (Suc n)) env src d 1 lps s = play (Suc (Suc n)) env src limits ps s"
    by (simp add: SendFrames_def limits_def ps_def)
  have l: "limit_frames limits \<noteq> kNotInitialized env" "limit_frames limits = 1"
    "limit_duration limits = d"
    using assms by (simp_all add: limits_def)
  have p0: "frames_emitted ps = 0" "\<not> at_loop_boundary ps" "started_at ps = clock env (trace s)"
    by (simp_all add: ps_def)
  show ?thesis
  proof (cases "interrupt_received s \<or> duration_exceeded d 0")
    case True
    then have "play (Suc (Suc n)) env src limits ps s = (s, Some Cancelled) \<or>
        play (Suc (Suc n)) env src limits ps s = (s, Some DurationExceeded)"
      using l p0 by auto
    then show ?thesis
      using True by (auto simp: sf frames_shown_def)
  next
    case False
    show ?thesis
    proof (cases "next_frame env (trace s)")
      case EndOfStream
      then have "play (Suc (Suc n)) env src limits ps s = (s, Some SourceExhausted)"
        using False l p0 by simp
      then show ?thesis
        using EndOfStream by (simp add: sf frames_shown_def)
    next
      case DecodeFail
      then have "play (Suc (Suc n)) env src limits ps s =
          (emit env (Stderr (DecodeFailed (source_name src))) s, Some DecodeError)"
        using False l p0 by simp
      then show ?thesis
        using DecodeFail by (simp add: sf frames_shown_def)
    next
      case (Decoded frame delay wrap)
      define s1 where "s1 = emit env (RenderFrame (source_name src) frame) s"
      define s2 where "s2 = (if 0 < delay \<and> \<not> interrupt_received s1
                         then emit env (Suspend delay) s1 else s1)"
      define ps1 where "ps1 = ps\<lparr>loop_index := loop_index ps + (if wrap then 1 else 0),
                            frames_emitted := frames_emitted ps + 1,
                            at_loop_boundary := wrap\<rparr>"
      have step: "play (Suc (Suc n)) env src limits ps s = play (Suc n) env src limits ps1 s2"
        using False l p0 Decoded by (simp add: Let_def s1_def s2_def ps1_def)
      have "limit_frames limits \<le> frames_emitted ps1"
        using l p0 by (simp add: ps1_def)
      from play_frame_limit [OF l(1) this]
      obtain reason where r: "play (Suc n) env src limits ps1 s2 = (s2, Some reason)"
        by blast
      have eq: "SendFrames (Suc (Suc n)) env src d 1 lps s = (s2, Some reason)"
        by (simp only: sf step r)
      have "frames_shown (new_events s s2) = 1"
        by (simp add: s2_def s1_def frames_shown_def)
      then show ?thesis
        using False Decoded eq by (simp del: play.simps)
    qed
  qed
qed


section \<open>Properties of the run\<close>

lemmas run_defs = main_def usage_def canvas_options_def cell_options_def playback_loops_def
  Create_def LoadAndScale_def SendFrames_def emit_def append_event_def
  command_line_def geometry_options_def still_world_def empty_world_def animation_world_def
  selective_world_def frameless_world_def interrupted_def duration_exceeded_def loop_limit_reached_def
  frames_shown_def new_events_def Let_def signed_divide_int_def

lemma sdiv_nonneg: "0 \<le> a \<Longrightarrow> 1 \<le> b \<Longrightarrow> a sdiv b = a div (b :: int)"
  by (simp add: signed_divide_int_def sgn_if)

lemma LoadAndScale_trace:
  "trace (fst (LoadAndScale env kind filename options s)) =
     trace s @ Open kind filename #
       (case open_result env (trace s @ [Open kind filename]) of
          None \<Rightarrow> []
        | Some (w, h) \<Rightarrow> [GeometryCall w h options])"
  by (simp add: LoadAndScale_def Let_def split: option.splits)

lemma LoadAndScale_kind:
  "LoadAndScale env kind filename options s = (s1, Some src) \<Longrightarrow> source_kind src = kind"
  by (auto simp: LoadAndScale_def Let_def split: option.splits)

lemma still_run:
  "main 3 (still_world 640 480) (command_line 100 50 2 1 (- 2147483648) (- 2147483648) [''a.png'']) =
     (\<lparr>trace =
         [CursorOff, RendererCreate (geometry_options 100 50 False False False) 2 1,
          InstallSignalHandlers,
          CallCreate ''a.png'' (geometry_options 50 50 False False False) True True,
          Open ImageLoader ''a.png'',
          GeometryCall 640 480 (geometry_options 50 50 False False False),
          CallSendFrames ''a.png'' InfiniteFuture (- 2147483648) (- 2147483648),
          RenderFrame ''a.png'' 0, CursorOn],
       interrupt_received = False\<rparr>, Returned 0)"
  by (simp add: run_defs eval_nat_numeral)

lemma animation_run:
  "main 3 (animation_world 640 480) (command_line 100 50 1 1 1 (- 1) [''a.gif'']) =
     (\<lparr>trace =
         [CursorOff, RendererCreate (geometry_options 100 50 False False False) 1 1,
          InstallSignalHandlers,
          CallCreate ''a.gif'' (geometry_options 100 50 False False False) True True,
          Open ImageLoader ''a.gif'',
          GeometryCall 640 480 (geometry_options 100 50 False False False),
          CallSendFrames ''a.gif'' InfiniteFuture 1 1, RenderFrame ''a.gif'' 0, Suspend 100,
          CursorOn],
       interrupt_received = False\<rparr>, Returned 0)"
  by (simp add: run_defs eval_nat_numeral)

lemma interrupted_run:
  "main 3 (interrupted (animation_world 640 480))
       (command_line 100 50 1 1 (- 2147483648) (- 2147483648) [''a.gif'', ''b.gif'']) =
     (\<lparr>trace =
         [CursorOff, RendererCreate (geometry_options 100 50 False False False) 1 1,
          InstallSignalHandlers, CursorOn, StdoutNewline],
       interrupt_received = True\<rparr>, Returned 0)"
  by (simp add: run_defs eval_nat_numeral)

lemma missing_file_run:
  "main 3 empty_world (command_line 100 50 1 1 (- 2147483648) (- 2147483648) [''missing.png'']) =
     (\<lparr>trace =
         [CursorOff, RendererCreate (geometry_options 100 50 False False False) 1 1,
          InstallSignalHandlers,
          CallCreate ''missing.png'' (geometry_options 100 50 False False False) True True,
          Open ImageLoader ''missing.png'', Open VideoLoader ''missing.png'',
          Stderr (CouldntLoad ''missing.png''), CursorOn],
       interrupt_received = False\<rparr>, Returned 0)"
  by (simp add: run_defs eval_nat_numeral)

lemma second_file_run:
  "main 3 (selective_world ''b.png'') (command_line 100 50 1 1 (- 2147483648) (- 2147483648) [''a.png'', ''b.png'']) =
     (\<lparr>trace =
         [CursorOff, RendererCreate (geometry_options 100 50 False False False) 1 1,
          InstallSignalHandlers,
          CallCreate ''a.png'' (geometry_options 100 50 False False False) True True,
          Open ImageLoader ''a.png'', Open VideoLoader ''a.png'',
          Stderr (CouldntLoad ''a.png''),
          CallCreate ''b.png'' (geometry_options 100 50 False False False) True True,
          Open ImageLoader ''b.png'',
          GeometryCall 64 64 (geometry_options 100 50 False False False),
          CallSendFrames ''b.png'' InfiniteFuture (- 2147483648) (- 2147483648),
          RenderFrame ''b.png'' 0, CursorOn],
       interrupt_received = False\<rparr>, Returned 0)"
  by (simp add: run_defs eval_nat_numeral)


text \<open>
  C8: for a grid of at least one column and one row the program does not divide by zero,
  and the cell is the canvas divided by the grid, axis by axis, with C's integer division
  (for a dimension that is not negative, the quotient rounded down): the renderer receives
  the canvas options and the grid, and every call of \<^verbatim>\<open>ImageSource::Create\<close> and every
  computation of a target geometry receives exactly the cell options. A 100 by 50 canvas
  with two columns and one row has cells of 50 by 50.
\<close>

theorem cell_is_canvas_over_grid:
  "1 \<le> grid_cols p \<Longrightarrow> 1 \<le> grid_rows p \<Longrightarrow>
   snd (main fuel env p) \<noteq> DividedByZero \<and>
   width (cell_options p) = width (canvas_options p) sdiv grid_cols p \<and>
   height (cell_options p) = height (canvas_options p) sdiv grid_rows p \<and>
   (0 \<le> width (canvas_options p) \<longrightarrow>
      width (cell_options p) = width (canvas_options p) div grid_cols p) \<and>
   (0 \<le> height (canvas_options p) \<longrightarrow>
      height (cell_options p) = height (canvas_options p) div grid_rows p) \<and>
   (\<forall>options cols rows.
      RendererCreate options cols rows \<in> set (trace (fst (main fuel env p))) \<longrightarrow>
      options = canvas_options p \<and> cols = grid_cols p \<and> rows = grid_rows p) \<and>
   (\<forall>filename options i v.
      CallCreate filename options i v \<in> set (trace (fst (main fuel env p))) \<longrightarrow>
      options = cell_options p) \<and>
   (\<forall>w h options.
      GeometryCall w h options \<in> set (trace (fst (main fuel env p))) \<longrightarrow>
      options = cell_options p) \<and>
   (grid_cols p = 2 \<and> grid_rows p = 1 \<and>
    width (canvas_options p) = 100 \<and> height (canvas_options p) = 50 \<longrightarrow>
      width (cell_options p) = 50 \<and> height (cell_options p) = 50)"
proof (intro conjI allI impI)
  assume g: "1 \<le> grid_cols p" "1 \<le> grid_rows p"
  show "snd (main fuel env p) \<noteq> DividedByZero"
    using g by (auto simp: main_def usage_def Let_def split: prod.splits bool.splits)
  show "width (cell_options p) = width (canvas_options p) sdiv grid_cols p"
    "height (cell_options p) = height (canvas_options p) sdiv grid_rows p"
    by (simp_all add: cell_options_def)
  show "width (cell_options p) = width (canvas_options p) div grid_cols p"
    if "0 \<le> width (canvas_options p)"
    using that g by (simp add: cell_options_def sdiv_nonneg)
  show "height (cell_options p) = height (canvas_options p) div grid_rows p"
    if "0 \<le> height (canvas_options p)"
    using that g by (simp add: cell_options_def sdiv_nonneg)
  show "options = canvas_options p" "cols = grid_cols p" "rows = grid_rows p"
    if "RendererCreate options cols rows \<in> set (trace (fst (main fuel env p)))"
    for options cols rows
    using main_events [OF that] by simp_all
  show "options = cell_options p"
    if "CallCreate filename options i v \<in> set (trace (fst (main fuel env p)))"
    for filename options i v
    using main_events [OF that] by simp
  show "options = cell_options p"
    if "GeometryCall w h options \<in> set (trace (fst (main fuel env p)))"
    for w h options
    using main_events [OF that] by simp
  show "width (cell_options p) = 50" "height (cell_options p) = 50"
    if "grid_cols p = 2 \<and> grid_rows p = 1 \<and>
      width (canvas_options p) = 100 \<and> height (canvas_options p) = 50"
    using that by (simp_all add: cell_options_def signed_divide_int_def)
qed

theorem cell_is_canvas_over_grid_witness:
  "RendererCreate (geometry_options 100 50 False False False) 2 1 \<in>
     set (trace (fst (main 3 (still_world 640 480)
       (command_line 100 50 2 1 (- 2147483648) (- 2147483648) [''a.png''])))) \<and>
   GeometryCall 640 480 (geometry_options 50 50 False False False) \<in>
     set (trace (fst (main 3 (still_world 640 480)
       (command_line 100 50 2 1 (- 2147483648) (- 2147483648) [''a.png''])))) \<and>
   cell_options (command_line 100 50 2 1 (- 2147483648) (- 2147483648) [''a.png'']) =
     geometry_options 50 50 False False False"
proof -
  let ?p = "command_line 100 50 2 1 (- 2147483648) (- 2147483648) [''a.png'']"
  have g: "1 \<le> grid_cols ?p" "1 \<le> grid_rows ?p"
    by (simp_all add: command_line_def)
  have t: "RendererCreate (geometry_options 100 50 False False False) 2 1 \<in>
     set (trace (fst (main 3 (still_world 640 480) ?p)))"
    "GeometryCall 640 480 (geometry_options 50 50 False False False) \<in>
     set (trace (fst (main 3 (still_world 640 480) ?p)))"
    by (simp_all add: still_run)
  show ?thesis
    using t cell_is_canvas_over_grid [OF g, of 3 "still_world 640 480"]
    by auto
qed

text \<open>
  C4, as the code has it: once the display size is valid and a file is named, \<^verbatim>\<open>main\<close>
  returns 0 whenever it returns, whatever happened to the files: \<^verbatim>\<open>exit_code\<close> is set to 0
  before the loop and never assigned again. The status after a failed load is therefore the
  status of a run in which every file loaded.
\<close>

theorem exit_status_ignores_load_failures:
  "1 \<le> width (display_opts p) \<Longrightarrow> 1 \<le> height (display_opts p) \<Longrightarrow> filenames p \<noteq> [] \<Longrightarrow>
   snd (main fuel env p) = Returned 0 \<or> snd (main fuel env p) = DividedByZero \<or>
   snd (main fuel env p) = StillPlaying"
  by (auto simp: main_def Let_def split: if_splits prod.splits bool.splits)

theorem exit_status_ignores_load_failures_witness:
  "Stderr (CouldntLoad ''missing.png'') \<in>
     set (trace (fst (main 3 empty_world
       (command_line 100 50 1 1 (- 2147483648) (- 2147483648) [''missing.png''])))) \<and>
   snd (main 3 empty_world (command_line 100 50 1 1 (- 2147483648) (- 2147483648) [''missing.png''])) = Returned 0 \<and>
   snd (main 3 (still_world 640 480)
     (command_line 100 50 2 1 (- 2147483648) (- 2147483648) [''a.png''])) = Returned 0"
proof -
  let ?p = "command_line 100 50 1 1 (- 2147483648) (- 2147483648) [''missing.png'']"
  have h: "1 \<le> width (display_opts ?p)" "1 \<le> height (display_opts ?p)" "filenames ?p \<noteq> []"
    by (simp_all add: command_line_def geometry_options_def)
  have "snd (main 3 empty_world ?p) \<noteq> DividedByZero"
    "snd (main 3 empty_world ?p) \<noteq> StillPlaying"
    by (simp_all add: missing_file_run)
  then have "snd (main 3 empty_world ?p) = Returned 0"
    using exit_status_ignores_load_failures [OF h, of 3 empty_world] by simp
  then show ?thesis
    by (simp add: missing_file_run still_run)
qed

text \<open>
  C5, amended: with \<^verbatim>\<open>max_frames == 1\<close> the loop count handed to every \<^verbatim>\<open>SendFrames\<close>
  call is 1, whatever was configured, and the frame limit handed over is 1. A sequencer
  with frame limit 1 (which is a limit, as \<open>kNotInitialized\<close> is not 1) stops within two
  cycles and shows at most one frame, whatever its loop count and however long the source;
  it shows exactly one unless it is cancelled or out of time before the first frame or the
  decoder has no frame to give.
\<close>

theorem single_frame_single_loop:
  "max_frames p = 1 \<Longrightarrow>
   playback_loops p = 1 \<and>
   (\<forall>filename d frames lps.
      CallSendFrames filename d frames lps \<in> set (trace (fst (main fuel env p))) \<longrightarrow>
      frames = 1 \<and> lps = 1) \<and>
   (kNotInitialized env \<noteq> 1 \<longrightarrow>
    (\<exists>s' reason.
      SendFrames (Suc (Suc n)) env src d 1 lps s = (s', Some reason) \<and>
      frames_shown (new_events s s') \<le> 1 \<and>
      (frames_shown (new_events s s') = 1 \<longleftrightarrow>
         \<not> interrupt_received s \<and> \<not> duration_exceeded d 0 \<and>
         (\<exists>frame delay wrap. next_frame env (trace s) = Decoded frame delay wrap))))"
proof (intro conjI allI impI)
  assume m: "max_frames p = 1"
  show "playback_loops p = 1"
    using m by (simp add: playback_loops_def)
  show "frames = 1" "lps = 1"
    if "CallSendFrames filename d frames lps \<in> set (trace (fst (main fuel env p)))"
    for filename d frames lps
    using main_events [OF that] m by (simp_all add: playback_loops_def)
  show "\<exists>s' reason.
      SendFrames (Suc (Suc n)) env src d 1 lps s = (s', Some reason) \<and>
      frames_shown (new_events s s') \<le> 1 \<and>
      (frames_shown (new_events s s') = 1 \<longleftrightarrow>
         \<not> interrupt_received s \<and> \<not> duration_exceeded d 0 \<and>
         (\<exists>frame delay wrap. next_frame env (trace s) = Decoded frame delay wrap))"
    if "kNotInitialized env \<noteq> 1"
    using that by (rule SendFrames_single_frame)
qed

theorem single_frame_single_loop_witness:
  "loops (command_line 100 50 1 1 1 (- 1) [''a.gif'']) = - 1 \<and>
   playback_loops (command_line 100 50 1 1 1 (- 1) [''a.gif'']) = 1 \<and>
   CallSendFrames ''a.gif'' InfiniteFuture 1 1 \<in>
     set (trace (fst (main 3 (animation_world 640 480)
       (command_line 100 50 1 1 1 (- 1) [''a.gif''])))) \<and>
   frames_shown (trace (fst (main 3 (animation_world 640 480)
       (command_line 100 50 1 1 1 (- 1) [''a.gif''])))) = 1 \<and>
   snd (main 3 (animation_world 640 480)
       (command_line 100 50 1 1 1 (- 1) [''a.gif''])) = Returned 0"
proof -
  let ?p = "command_line 100 50 1 1 1 (- 1) [''a.gif'']"
  have h: "max_frames ?p = 1"
    by (simp add: command_line_def)
  have "playback_loops ?p = 1"
    using single_frame_single_loop [OF h] by simp
  then show ?thesis
    by (simp add: animation_run frames_shown_def) (simp add: command_line_def)
qed

text \<open>
  ``Exactly one frame'' fails for some configurations with \<^verbatim>\<open>max_frames == 1\<close>: with a
  total duration of 0 ms the sequencer of an endless animation is out of time in its first
  cycle, before any frame; and for a file that opens but whose decoder reports the end of
  the stream at once, the source is exhausted in the first cycle. Both runs call
  \<^verbatim>\<open>SendFrames\<close> with frame limit 1 and loop count 1 and show no frame.
\<close>

theorem single_frame_single_loop_counterexample:
  "max_frames ((command_line 100 50 1 1 1 (- 1) [''a.gif''])\<lparr>duration := Millis 0\<rparr>) = 1 \<and>
   main 3 (animation_world 640 480)
     ((command_line 100 50 1 1 1 (- 1) [''a.gif''])\<lparr>duration := Millis 0\<rparr>) =
     (\<lparr>trace =
         [CursorOff, RendererCreate (geometry_options 100 50 False False False) 1 1,
          InstallSignalHandlers,
          CallCreate ''a.gif'' (geometry_options 100 50 False False False) True True,
          Open ImageLoader ''a.gif'',
          GeometryCall 640 480 (geometry_options 100 50 False False False),
          CallSendFrames ''a.gif'' (Millis 0) 1 1, CursorOn],
       interrupt_received = False\<rparr>, Returned 0) \<and>
   frames_shown (trace (fst (main 3 (animation_world 640 480)
     ((command_line 100 50 1 1 1 (- 1) [''a.gif''])\<lparr>duration := Millis 0\<rparr>)))) = 0 \<and>
   max_frames (command_line 100 50 1 1 1 (- 1) [''empty.gif'']) = 1 \<and>
   main 3 (frameless_world 640 480)
     (command_line 100 50 1 1 1 (- 1) [''empty.gif'']) =
     (\<lparr>trace =
         [CursorOff, RendererCreate (geometry_options 100 50 False False False) 1 1,
          InstallSignalHandlers,
          CallCreate ''empty.gif'' (geometry_options 100 50 False False False) True True,
          Open ImageLoader ''empty.gif'',
          GeometryCall 640 480 (geometry_options 100 50 False False False),
          CallSendFrames ''empty.gif'' InfiniteFuture 1 1, CursorOn],
       interrupt_received = False\<rparr>, Returned 0) \<and>
   frames_shown (trace (fst (main 3 (frameless_world 640 480)
     (command_line 100 50 1 1 1 (- 1) [''empty.gif''])))) = 0"
  by (simp add: run_defs eval_nat_numeral)

text \<open>
  C6: once the flag is set, no frame is rendered and no source is created any more: of a
  run's trace, the part after a history at which the flag is set contains neither a frame
  nor a call of \<^verbatim>\<open>ImageSource::Create\<close>; so a flag set before any frame leaves the run
  without frames. A sequencer entered with the flag set stops in its first cycle as
  cancelled and adds nothing to the run, and the loop over the files, reaching its test with
  the flag set, starts no further file.
\<close>

theorem cancellation_stops_the_run:
  "(\<forall>pre post. trace (fst (main fuel env p)) = pre @ post \<and> flag_at env pre \<longrightarrow>
      list_all (\<lambda>e. \<not> is_frame e \<and> \<not> is_create e) post) \<and>
   (interrupt_received s \<longrightarrow>
      SendFrames (Suc n) env src d frames lps s = (s, Some Cancelled)) \<and>
   (interrupt_received s \<longrightarrow>
      show_files n env options i v d frames lps files s = (s, True))"
proof (intro conjI allI impI)
  fix pre post
  assume "trace (fst (main fuel env p)) = pre @ post \<and> flag_at env pre"
  then show "list_all (\<lambda>e. \<not> is_frame e \<and> \<not> is_create e) post"
    using main_quiet [of env fuel p] quiet_split [of env pre post] by simp
next
  assume "interrupt_received s"
  then show "SendFrames (Suc n) env src d frames lps s = (s, Some Cancelled)"
    by (simp add: SendFrames_def)
next
  assume "interrupt_received s"
  then show "show_files n env options i v d frames lps files s = (s, True)"
    by (cases files) simp_all
qed

theorem cancellation_stops_the_run_witness:
  "flag_at (interrupted (animation_world 640 480))
     [CursorOff, RendererCreate (geometry_options 100 50 False False False) 1 1,
      InstallSignalHandlers] \<and>
   trace (fst (main 3 (interrupted (animation_world 640 480))
       (command_line 100 50 1 1 (- 2147483648) (- 2147483648) [''a.gif'', ''b.gif'']))) =
     [CursorOff, RendererCreate (geometry_options 100 50 False False False) 1 1,
      InstallSignalHandlers] @ [CursorOn, StdoutNewline] \<and>
   list_all (\<lambda>e. \<not> is_frame e \<and> \<not> is_create e) [CursorOn, StdoutNewline] \<and>
   frames_shown (trace (fst (main 3 (interrupted (animation_world 640 480))
       (command_line 100 50 1 1 (- 2147483648) (- 2147483648) [''a.gif'', ''b.gif''])))) = 0 \<and>
   SendFrames (Suc 0) (interrupted (animation_world 640 480))
       \<lparr>source_kind = ImageLoader, source_name = ''a.gif'',
          geometry = \<lparr>needs_scaling = False, target_width = 640, target_height = 480\<rparr>\<rparr>
       InfiniteFuture 0 0 \<lparr>trace = [], interrupt_received = True\<rparr> =
     (\<lparr>trace = [], interrupt_received = True\<rparr>, Some Cancelled)"
proof -
  let ?env = "interrupted (animation_world 640 480)"
  let ?pre = "[CursorOff, RendererCreate (geometry_options 100 50 False False False) 1 1,
      InstallSignalHandlers]"
  have "signal ?env (take 3 ?pre)"
    by (simp add: interrupted_def)
  then have f: "flag_at ?env ?pre"
    unfolding flag_at_def by (intro bexI [of _ 3]) simp_all
  have t: "trace (fst (main 3 ?env (command_line 100 50 1 1 (- 2147483648) (- 2147483648) [''a.gif'', ''b.gif'']))) =
      ?pre @ [CursorOn, StdoutNewline]"
    by (simp add: interrupted_run)
  have c: "interrupt_received \<lparr>trace = [], interrupt_received = True\<rparr>"
    by simp
  have "list_all (\<lambda>e. \<not> is_frame e \<and> \<not> is_create e) [CursorOn, StdoutNewline]"
    using f t cancellation_stops_the_run
      [of 3 ?env "command_line 100 50 1 1 (- 2147483648) (- 2147483648) [''a.gif'', ''b.gif'']"]
    by blast
  moreover have "SendFrames (Suc 0) ?env
       \<lparr>source_kind = ImageLoader, source_name = ''a.gif'',
          geometry = \<lparr>needs_scaling = False, target_width = 640, target_height = 480\<rparr>\<rparr>
       InfiniteFuture 0 0 \<lparr>trace = [], interrupt_received = True\<rparr> =
     (\<lparr>trace = [], interrupt_received = True\<rparr>, Some Cancelled)"
    using c cancellation_stops_the_run
      [where env = ?env and s = "\<lparr>trace = [], interrupt_received = True\<rparr>" and n = 0]
    by blast
  ultimately show ?thesis
    using f t by (simp add: frames_shown_def del: play.simps)
qed


lemma adds_subset: "adds P s s' \<Longrightarrow> set (trace s) \<subseteq> set (trace s')"
  by (auto simp: adds_def)

lemma Create_trace:
  "trace (fst (Create env filename options i v s)) =
     trace s @ CallCreate filename options i v #
       new_events (emit env (CallCreate filename options i v) s)
         (fst (Create env filename options i v s))"
proof -
  define s0 where "s0 = emit env (CallCreate filename options i v) s"
  have "\<exists>evs. trace (fst (Create env filename options i v s)) = trace s0 @ evs"
    unfolding Create_unfold Let_def s0_def [symmetric]
    by (simp add: LoadAndScale_trace)
  then show ?thesis
    by (auto simp: new_events_def s0_def)
qed

lemma Create_video_probe:
  assumes "Open VideoLoader filename
      \<in> set (new_events s (fst (Create env filename options i v s)))"
  shows "with_video env \<and> v \<and>
     (\<not> i \<or> snd (LoadAndScale env ImageLoader filename options
                    (emit env (CallCreate filename options i v) s)) = None)"
proof -
  define s0 where "s0 = emit env (CallCreate filename options i v) s"
  have n: "new_events s t = drop (length (trace s)) (trace t)" for t
    by (simp add: new_events_def)
  show ?thesis
    using assms unfolding Create_unfold Let_def s0_def [symmetric] n
    by (auto simp: LoadAndScale_trace s0_def split: if_splits option.splits)
qed

lemma Create_failure_reported:
  assumes "snd (Create env filename options i v s) = None"
  shows "Stderr (CouldntLoad filename)
      \<in> set (new_events s (fst (Create env filename options i v s)))"
proof -
  define s0 where "s0 = emit env (CallCreate filename options i v) s"
  have n: "new_events s t = drop (length (trace s)) (trace t)" for t
    by (simp add: new_events_def)
  show ?thesis
    using assms unfolding Create_unfold Let_def s0_def [symmetric] n
    by (auto simp: LoadAndScale_trace s0_def split: if_splits option.splits)
qed

lemma show_files_reaches_next:
  assumes "\<not> interrupt_received s" and "Create env f options i v s = (s1, None)"
    and "\<not> interrupt_received s1"
  shows "CallCreate g options i v
     \<in> set (trace (fst (show_files n env options i v d frames lps (f # g # rest) s)))"
proof -
  obtain s2 r where c: "Create env g options i v s1 = (s2, r)"
    by (rule prod.exhaust)
  have in2: "CallCreate g options i v \<in> set (trace s2)"
    using Create_trace [of env g options i v s1] by (simp add: c)
  have step: "show_files n env options i v d frames lps (f # g # rest) s =
      show_files n env options i v d frames lps (g # rest) s1"
    using assms by simp
  have later: "CallCreate g options i v
      \<in> set (trace (fst (show_files n env options i v d frames lps rest t)))"
    if "CallCreate g options i v \<in> set (trace t)" for t
    using that adds_subset [OF show_files_adds [of options i v d frames lps t n env rest]]
    by blast
  show ?thesis
  proof (cases r)
    case None
    then have "show_files n env options i v d frames lps (g # rest) s1 =
        show_files n env options i v d frames lps rest s2"
      using assms(3) c by simp
    then show ?thesis
      unfolding step using later [OF in2] by (simp only:)
  next
    case (Some source)
    define s2' where "s2' = emit env (CallSendFrames g d frames lps) s2"
    obtain s3 q where p: "SendFrames n env source d frames lps s2' = (s3, q)"
      by (rule prod.exhaust)
    have "set (trace s2') \<subseteq> set (trace s3)"
      using adds_subset [OF SendFrames_adds [of source s2' n env d frames lps]]
      by (simp add: p)
    moreover have "set (trace s2) \<subseteq> set (trace s2')"
      by (auto simp: s2'_def)
    ultimately have in3: "CallCreate g options i v \<in> set (trace s3)"
      using in2 by blast
    show ?thesis
    proof (cases q)
      case None
      have "show_files n env options i v d frames lps (g # rest) s1 = (s3, False)"
        using assms(3) c \<open>r = Some source\<close> p None by (simp flip: s2'_def)
      then show ?thesis
        unfolding step using in3 by simp
    next
      case (Some reason)
      have "show_files n env options i v d frames lps (g # rest) s1 =
          show_files n env options i v d frames lps rest s3"
        using assms(3) c \<open>r = Some source\<close> p Some by (simp flip: s2'_def)
      then show ?thesis
        unfolding step using later [OF in3] by (simp only:)
    qed
  qed
qed

text \<open>
  C7: with \<^verbatim>\<open>attempt_image_loading\<close> set the image loader is tried first, and if it
  succeeds its source is returned at once: the run is left as the image loader left it, so
  the video loader was not opened, whatever \<^verbatim>\<open>attempt_video_loading\<close> says. The video
  loader is opened only if video support is compiled in, \<^verbatim>\<open>attempt_video_loading\<close> is set
  and image loading was disabled or failed. If every loader that was tried failed, the
  result is \<^verbatim>\<open>nullptr\<close>, and whenever the result is \<^verbatim>\<open>nullptr\<close> the message naming the
  file has been written to stderr. The loop of \<^verbatim>\<open>main\<close> then goes on with the remaining
  files from the state that \<^verbatim>\<open>Create\<close> left, and unless a signal has arrived meanwhile, it
  calls \<^verbatim>\<open>Create\<close> for the next file.
\<close>

theorem create_probing_order:
  "(i \<and> LoadAndScale env ImageLoader f options (emit env (CallCreate f options i v) s)
        = (s1, Some src) \<longrightarrow>
      Create env f options i v s = (s1, Some src) \<and> source_kind src = ImageLoader \<and>
      Open VideoLoader f \<notin> set (new_events s s1)) \<and>
   (Open VideoLoader f \<in> set (new_events s (fst (Create env f options i v s))) \<longrightarrow>
      with_video env \<and> v \<and>
      (\<not> i \<or> snd (LoadAndScale env ImageLoader f options
                     (emit env (CallCreate f options i v) s)) = None)) \<and>
   ((i \<longrightarrow> snd (LoadAndScale env ImageLoader f options
                   (emit env (CallCreate f options i v) s)) = None) \<and>
    (with_video env \<and> v \<longrightarrow>
       snd (LoadAndScale env VideoLoader f options
             (if i then fst (LoadAndScale env ImageLoader f options
                               (emit env (CallCreate f options i v) s))
              else emit env (CallCreate f options i v) s)) = None) \<longrightarrow>
      snd (Create env f options i v s) = None) \<and>
   (snd (Create env f options i v s) = None \<longrightarrow>
      Stderr (CouldntLoad f) \<in> set (new_events s (fst (Create env f options i v s)))) \<and>
   (\<not> interrupt_received s \<and> Create env f options i v s = (s1, None) \<longrightarrow>
      show_files n env options i v d frames lps (f # rest) s =
        show_files n env options i v d frames lps rest s1) \<and>
   (\<not> interrupt_received s \<and> Create env f options i v s = (s1, None) \<and>
    \<not> interrupt_received s1 \<longrightarrow>
      CallCreate g options i v
        \<in> set (trace (fst (show_files n env options i v d frames lps (f # g # rest) s))))"
proof (intro conjI impI)
  define s0 where "s0 = emit env (CallCreate f options i v) s"
  {
    assume a: "i \<and> LoadAndScale env ImageLoader f options (emit env (CallCreate f options i v) s)
        = (s1, Some src)"
    then show "Create env f options i v s = (s1, Some src)"
      by (cases i) (simp_all add: Create_unfold)
    show "source_kind src = ImageLoader"
      using a LoadAndScale_kind by blast
    show "Open VideoLoader f \<notin> set (new_events s s1)"
      using a LoadAndScale_trace [of env ImageLoader f options s0]
      by (auto simp: new_events_def s0_def split: option.splits)
  }
  {
    assume "Open VideoLoader f \<in> set (new_events s (fst (Create env f options i v s)))"
    note probe = Create_video_probe [OF this]
    show "with_video env"
      using probe by (rule conjunct1)
    show "v"
      using probe by (rule conjunct2 [THEN conjunct1])
    show "\<not> i \<or> snd (LoadAndScale env ImageLoader f options
                     (emit env (CallCreate f options i v) s)) = None"
      using probe by (rule conjunct2 [THEN conjunct2])
  }
  {
    assume "(i \<longrightarrow> snd (LoadAndScale env ImageLoader f options
                   (emit env (CallCreate f options i v) s)) = None) \<and>
      (with_video env \<and> v \<longrightarrow>
       snd (LoadAndScale env VideoLoader f options
             (if i then fst (LoadAndScale env ImageLoader f options
                               (emit env (CallCreate f options i v) s))
              else emit env (CallCreate f options i v) s)) = None)"
    then show "snd (Create env f options i v s) = None"
      unfolding Create_unfold Let_def s0_def [symmetric] by auto
  }
  {
    assume "snd (Create env f options i v s) = None"
    then show "Stderr (CouldntLoad f) \<in> set (new_events s (fst (Create env f options i v s)))"
      by (rule Create_failure_reported)
  }
  {
    assume "\<not> interrupt_received s \<and> Create env f options i v s = (s1, None)"
    then show "show_files n env options i v d frames lps (f # rest) s =
        show_files n env options i v d frames lps rest s1"
      by simp
  }
  {
    assume "\<not> interrupt_received s \<and> Create env f options i v s = (s1, None) \<and>
      \<not> interrupt_received s1"
    then show "CallCreate g options i v
        \<in> set (trace (fst (show_files n env options i v d frames lps (f # g # rest) s)))"
      using show_files_reaches_next by blast
  }
qed


theorem create_probing_order_witness:
  "Create (still_world 640 480) ''a.png'' (geometry_options 100 50 False False False)
      True True \<lparr>trace = [], interrupt_received = False\<rparr> =
     LoadAndScale (still_world 640 480) ImageLoader ''a.png''
       (geometry_options 100 50 False False False)
       \<lparr>trace = [CallCreate ''a.png'' (geometry_options 100 50 False False False) True True],
          interrupt_received = False\<rparr> \<and>
   snd (Create (selective_world ''b.png'') ''a.png'' (geometry_options 100 50 False False False)
      True True \<lparr>trace = [], interrupt_received = False\<rparr>) = None \<and>
   Stderr (CouldntLoad ''a.png'') \<in> set (new_events \<lparr>trace = [], interrupt_received = False\<rparr>
      (fst (Create (selective_world ''b.png'') ''a.png''
         (geometry_options 100 50 False False False) True True
         \<lparr>trace = [], interrupt_received = False\<rparr>))) \<and>
   CallCreate ''b.png'' (geometry_options 100 50 False False False) True True \<in>
     set (trace (fst (show_files 3 (selective_world ''b.png'')
       (geometry_options 100 50 False False False) True True InfiniteFuture 0 0
       (''a.png'' # ''b.png'' # []) \<lparr>trace = [], interrupt_received = False\<rparr>)))"
proof -
  let ?env = "selective_world ''b.png''"
  let ?o = "geometry_options 100 50 False False False"
  let ?s = "\<lparr>trace = [], interrupt_received = False\<rparr>"
  let ?s1 = "\<lparr>trace = [CallCreate ''a.png'' ?o True True, Open ImageLoader ''a.png'',
      Open VideoLoader ''a.png'', Stderr (CouldntLoad ''a.png'')],
      interrupt_received = False\<rparr>"
  have c: "Create ?env ''a.png'' ?o True True ?s = (?s1, None)"
    by (simp add: Create_def LoadAndScale_def emit_def selective_world_def still_world_def
        empty_world_def Let_def)
  have n: "snd (Create ?env ''a.png'' ?o True True ?s) = None"
    by (simp add: c)
  have i: "\<not> interrupt_received ?s \<and> Create ?env ''a.png'' ?o True True ?s = (?s1, None) \<and>
      \<not> interrupt_received ?s1"
    by (simp add: c)
  note t = create_probing_order [of True ?env "''a.png''" ?o True ?s ?s1 _ 3 InfiniteFuture 0 0
      "[]" "''b.png''"]
  have "Stderr (CouldntLoad ''a.png'') \<in> set (new_events ?s
      (fst (Create ?env ''a.png'' ?o True True ?s)))"
    using t n by blast
  moreover have "CallCreate ''b.png'' ?o True True \<in>
     set (trace (fst (show_files 3 ?env ?o True True InfiniteFuture 0 0
       (''a.png'' # ''b.png'' # []) ?s)))"
    using t i by blast
  moreover have "Create (still_world 640 480) ''a.png'' ?o True True ?s =
     LoadAndScale (still_world 640 480) ImageLoader ''a.png'' ?o
       \<lparr>trace = [CallCreate ''a.png'' ?o True True], interrupt_received = False\<rparr>"
  proof -
    let ?w = "still_world 640 480"
    let ?called = "\<lparr>trace = [CallCreate ''a.png'' ?o True True], interrupt_received = False\<rparr>"
    have e: "emit ?w (CallCreate ''a.png'' ?o True True) ?s = ?called"
      by (simp add: emit_def still_world_def empty_world_def)
    have "\<exists>s1 src. LoadAndScale ?w ImageLoader ''a.png'' ?o ?called = (s1, Some src)"
      by (simp add: LoadAndScale_def emit_def still_world_def empty_world_def Let_def)
    then obtain s1 src where l: "LoadAndScale ?w ImageLoader ''a.png'' ?o ?called = (s1, Some src)"
      by blast
    then have "True \<and> LoadAndScale ?w ImageLoader ''a.png'' ?o
        (emit ?w (CallCreate ''a.png'' ?o True True) ?s) = (s1, Some src)"
      by (simp only: e simp_thms)
    then have "Create ?w ''a.png'' ?o True True ?s = (s1, Some src)"
      using create_probing_order [where i = True and env = ?w and f = "''a.png''"
          and options = ?o and v = True and s = ?s and ?s1.0 = s1 and src = src]
      by blast
    then show ?thesis
      by (simp only: l)
  qed
  ultimately show ?thesis
    using n by blast
qed

end
